theory Spec2Isabelle
  imports Complex_Main "HOL-Library.Word"
begin

section \<open>The spectrum display of \<^verbatim>\<open>src/scripts/app.js\<close>\<close>

text \<open>
  \<^verbatim>\<open>src/scripts/app.js\<close> holds several revisions of the application one after the
  other. The development follows the most complete one, lines 1436--2265, with the
  audio sources and the terminal interface: \<^verbatim>\<open>CONFIG\<close> at line 1453, the audio source
  management at 1574--1757, \<^verbatim>\<open>getEQLevels\<close> at 1799 and \<^verbatim>\<open>updateEQBars\<close> at 1870.

  A JavaScript Number is modelled by a \<^typ>\<open>real\<close>: sums, products, \<^verbatim>\<open>Math.floor\<close>,
  \<^verbatim>\<open>Math.ceil\<close>, \<^verbatim>\<open>Math.min\<close> and \<^verbatim>\<open>Math.max\<close> are the exact ones, so rounding of
  IEEE doubles is not part of the model. Where the source would compute with
  \<^verbatim>\<open>undefined\<close> or \<^verbatim>\<open>NaN\<close> (a read outside an array) the model does not follow it:
  the function returns \<open>None\<close> there. The one division by zero that the source can
  make, by a sample rate of zero, is followed in \<open>bandLevel\<close>.

  An \<^verbatim>\<open>async\<close> function is given both as a whole and in the pieces between its
  \<^verbatim>\<open>await\<close>s, since other handlers of the page can run where it waits.
\<close>

subsection \<open>Configuration\<close>

text \<open>
  \<^verbatim>\<open>CONFIG\<close> of the source. The band boundaries \<^verbatim>\<open>frequencyBands\<close> and the gains
  \<^verbatim>\<open>bandGains\<close> are local constants of \<^verbatim>\<open>getEQLevels\<close> in the source; they are fields
  here, so that the mapper can be stated for another band table as well.
\<close>

record config =
  eqBarCount :: nat
  eqSegmentCount :: nat
  eqUpdateInterval :: real
  fftSize :: nat
  smoothing :: real
  peakDecay :: real
  peakHoldTime :: real
  frequencyBands :: "real list"
  bandGains :: "real list"

definition CONFIG :: config where
  "CONFIG = \<lparr> eqBarCount = 16, eqSegmentCount = 12, eqUpdateInterval = 50,
     fftSize = 512, smoothing = 6 / 10, peakDecay = 2 / 100, peakHoldTime = 500,
     frequencyBands = [20, 40, 60, 90, 130, 180, 250, 350,
                       500, 700, 1000, 1400, 2000, 3500, 6000, 12000, 20000],
     bandGains = [1, 1, 1, 11 / 10, 12 / 10, 13 / 10, 14 / 10, 15 / 10,
                  16 / 10, 18 / 10, 2, 22 / 10, 25 / 10, 28 / 10, 32 / 10, 36 / 10] \<rparr>"

subsection \<open>The live branch of \<^verbatim>\<open>getEQLevels\<close>: from bins to a band level\<close>

text \<open>
  \<^verbatim>\<open>lowBin = Math.floor(lowFreq / nyquist * binCount)\<close> and
  \<^verbatim>\<open>highBin = Math.min(Math.ceil(highFreq / nyquist * binCount), binCount - 1)\<close>,
  with \<^verbatim>\<open>nyquist = sampleRate / 2\<close>.
\<close>

definition lowBin :: "config \<Rightarrow> real \<Rightarrow> nat \<Rightarrow> nat \<Rightarrow> int" where
  "lowBin cfg sampleRate binCount i =
     \<lfloor>frequencyBands cfg ! i / (sampleRate / 2) * real binCount\<rfloor>"

definition highBin :: "config \<Rightarrow> real \<Rightarrow> nat \<Rightarrow> nat \<Rightarrow> int" where
  "highBin cfg sampleRate binCount i =
     min \<lceil>frequencyBands cfg ! (i + 1) / (sampleRate / 2) * real binCount\<rceil>
         (int binCount - 1)"

text \<open>
  A read \<^verbatim>\<open>state.frequencyData[bin]\<close> of the \<^verbatim>\<open>Uint8Array\<close>: outside the array the
  source reads \<^verbatim>\<open>undefined\<close> (and the sum becomes \<^verbatim>\<open>NaN\<close>), which is \<open>None\<close> here.
\<close>

definition readBin :: "8 word list \<Rightarrow> int \<Rightarrow> nat option" where
  "readBin frequencyData bin =
     (if 0 \<le> bin \<and> bin < int (length frequencyData)
      then Some (unat (frequencyData ! nat bin)) else None)"

text \<open>
  The loop \<^verbatim>\<open>for (bin = lowBin; bin <= highBin; bin++) { sum += ...; count++ }\<close> over
  the bins it visits, in order; the accumulator \<open>(binSum, count)\<close>
  holds the source's \<^verbatim>\<open>sum\<close> and \<^verbatim>\<open>count\<close>.
\<close>

fun sumBins :: "8 word list \<Rightarrow> int list \<Rightarrow> nat \<times> nat \<Rightarrow> (nat \<times> nat) option" where
  "sumBins frequencyData [] acc = Some acc"
| "sumBins frequencyData (bin # bins) (binSum, count) =
     (case readBin frequencyData bin of
        None \<Rightarrow> None
      | Some v \<Rightarrow> sumBins frequencyData bins (binSum + v, count + 1))"

text \<open>The bins that the loop of band \<open>i\<close> reads.\<close>

definition bandBins :: "config \<Rightarrow> real \<Rightarrow> nat \<Rightarrow> nat \<Rightarrow> int list" where
  "bandBins cfg sampleRate binCount i =
     [lowBin cfg sampleRate binCount i .. highBin cfg sampleRate binCount i]"

text \<open>
  The level of band \<open>i\<close> before smoothing:
  \<^verbatim>\<open>level = count > 0 ? (sum / count) / 255 : 0; level = Math.min(1, level * bandGains[i])\<close>.
  \<open>None\<close> when a table is read out of range.

  With a sample rate of zero the source divides by zero, and \<^verbatim>\<open>lowBin\<close> is \<^verbatim>\<open>Infinity\<close>,
  \<^verbatim>\<open>-Infinity\<close> or \<^verbatim>\<open>NaN\<close>. From \<^verbatim>\<open>Infinity\<close> and from \<^verbatim>\<open>NaN\<close> the loop reads no bin and
  the level is 0: that is so when the lower frequency is not negative, when there are
  no bins (\<^verbatim>\<open>-Infinity * 0\<close> is \<^verbatim>\<open>NaN\<close>), and when the upper frequency is zero (\<^verbatim>\<open>highBin\<close>
  is \<^verbatim>\<open>NaN\<close>). From \<^verbatim>\<open>-Infinity\<close> the loop does not end, which is \<open>None\<close> here.
\<close>

definition bandLevel :: "config \<Rightarrow> real \<Rightarrow> 8 word list \<Rightarrow> nat \<Rightarrow> real option" where
  "bandLevel cfg sampleRate frequencyData i =
     (if i + 1 < length (frequencyBands cfg) \<and> i < length (bandGains cfg) then
        if sampleRate = 0 then
          (if 0 \<le> frequencyBands cfg ! i \<or> length frequencyData = 0 \<or>
              frequencyBands cfg ! (i + 1) = 0
           then Some (min 1 (0 * bandGains cfg ! i)) else None)
        else
          (case sumBins frequencyData (bandBins cfg sampleRate (length frequencyData) i) (0, 0) of
             None \<Rightarrow> None
           | Some (binSum, count) \<Rightarrow>
               let level = (if count > 0 then (real binSum / real count) / 255 else 0)
               in Some (min 1 (level * bandGains cfg ! i)))
      else None)"

subsection \<open>Smoothing\<close>

text \<open>
  \<^verbatim>\<open>smoothed = state.smoothedLevels[i] * CONFIG.smoothing + level * (1 - CONFIG.smoothing)\<close>,
  the same expression in the live and in the demo branch.
\<close>

definition smooth :: "config \<Rightarrow> real \<Rightarrow> real \<Rightarrow> real" where
  "smooth cfg previous level = previous * smoothing cfg + level * (1 - smoothing cfg)"

text \<open>The smoothed values that a band goes through when it is fed a sequence of levels.\<close>

fun smoothRun :: "config \<Rightarrow> real \<Rightarrow> real list \<Rightarrow> real list" where
  "smoothRun cfg previous [] = []"
| "smoothRun cfg previous (level # levels) =
     smooth cfg previous level # smoothRun cfg (smooth cfg previous level) levels"

subsection \<open>Application state\<close>

text \<open>
  The object \<^verbatim>\<open>state\<close> of the source, and the module variable \<^verbatim>\<open>segments\<close>.
  \<^verbatim>\<open>smoothedLevels\<close>, \<^verbatim>\<open>peakLevels\<close> and \<^verbatim>\<open>peakHoldTimes\<close> are \<^verbatim>\<open>null\<close> until
  \<^verbatim>\<open>buildEQBars\<close> has run, which \<^verbatim>\<open>init\<close> calls before anything else reads them; the
  model starts there. A stream, a source node and an audio element are named by a
  number. Four fields stand for what the browser holds on behalf of the page:
  \<open>liveStreams\<close>, the captured streams whose tracks have not been stopped,
  \<open>connectedSources\<close>, the source nodes connected to the analyser,
  \<open>loadedElements\<close>, the audio elements that hold a media resource, and
  \<open>destinationConnected\<close>, whether the analyser is connected to the loudspeakers
  (\<^verbatim>\<open>audioContext.destination\<close>).
  The buttons are reduced to the properties the source writes.
\<close>

datatype audio_mode = Demo | Mic | File

record audio_context =
  sampleRate :: real
  suspended :: bool

datatype colour = Red | Amber | Blue

record segment =
  lit :: bool
  color :: "colour option"
  peak :: bool
  isPeakHold :: bool

record app_state =
  output' :: string
  logs :: "string list"
  eqAnimationId :: "nat option"
  lastEqUpdate :: real
  audioContext :: "audio_context option"
  analyser :: bool
  frequencyData :: "8 word list option"
  audioSource :: "nat option"
  audioElement :: "nat option"
  micStream :: "nat option"
  audioMode :: audio_mode
  isPlaying :: bool
  smoothedLevels :: "real list"
  peakLevels :: "real list"
  peakHoldTimes :: "real list"
  segments :: "segment list list"
  micBtnActive :: bool
  micBtnText :: string
  playPauseBtnDisabled :: bool
  playPauseBtnText :: string
  liveStreams :: "nat set"
  connectedSources :: "nat set"
  loadedElements :: "nat set"
  destinationConnected :: bool

definition setOutput :: "string \<Rightarrow> app_state \<Rightarrow> app_state" where
  "setOutput txt st = st\<lparr>output' := txt\<rparr>"

definition addLog :: "string \<Rightarrow> app_state \<Rightarrow> app_state" where
  "addLog message st = st\<lparr>logs := logs st @ [message]\<rparr>"

text \<open>
  \<^verbatim>\<open>buildEQBars\<close>: the three arrays filled with zero, and \<^verbatim>\<open>eqBarCount\<close> bars of
  \<^verbatim>\<open>eqSegmentCount\<close> unlit segments.
\<close>

definition newSegment :: segment where
  "newSegment = \<lparr> lit = False, color = None, peak = False, isPeakHold = False \<rparr>"

definition buildEQBars :: "config \<Rightarrow> app_state \<Rightarrow> app_state" where
  "buildEQBars cfg st = st\<lparr>
     smoothedLevels := replicate (eqBarCount cfg) 0,
     peakLevels := replicate (eqBarCount cfg) 0,
     peakHoldTimes := replicate (eqBarCount cfg) 0,
     segments := replicate (eqBarCount cfg) (replicate (eqSegmentCount cfg) newSegment) \<rparr>"

text \<open>The state after \<^verbatim>\<open>init\<close> has built the bars: demo mode, nothing open.\<close>

definition initialState :: "config \<Rightarrow> app_state" where
  "initialState cfg = buildEQBars cfg \<lparr>
     output' = ''READY...'', logs = [''SYSTEM INITIALIZED'', ''AWAITING INPUT...''],
     eqAnimationId = None, lastEqUpdate = 0,
     audioContext = None, analyser = False, frequencyData = None,
     audioSource = None, audioElement = None, micStream = None,
     audioMode = Demo, isPlaying = False,
     smoothedLevels = [], peakLevels = [], peakHoldTimes = [], segments = [],
     micBtnActive = False, micBtnText = ''MIC'',
     playPauseBtnDisabled = True, playPauseBtnText = ''PLAY'',
     liveStreams = {}, connectedSources = {}, loadedElements = {},
     destinationConnected = False \<rparr>"

subsection \<open>\<^verbatim>\<open>getEQLevels\<close>\<close>

text \<open>
  \<^verbatim>\<open>analyser.getByteFrequencyData(state.frequencyData)\<close> copies the current magnitudes
  into the array, which keeps its length: magnitudes beyond it are dropped, and entries
  for which there is no magnitude keep their value.
\<close>

definition getByteFrequencyData :: "8 word list \<Rightarrow> 8 word list \<Rightarrow> 8 word list" where
  "getByteFrequencyData magnitudes fd =
     take (length fd) magnitudes @ drop (length magnitudes) fd"

text \<open>
  The live loop over the bands. \<open>levels\<close> is the result array and \<open>sl\<close> is
  \<^verbatim>\<open>state.smoothedLevels\<close>; both are written at index \<open>i\<close>. A band whose level or
  whose previous smoothed value is not a number ends the model's run with \<open>None\<close>.
\<close>

fun liveBands :: "config \<Rightarrow> real \<Rightarrow> 8 word list \<Rightarrow> nat list \<Rightarrow> real list \<times> real list
    \<Rightarrow> (real list \<times> real list) option" where
  "liveBands cfg sr fd [] acc = Some acc"
| "liveBands cfg sr fd (i # bands) (levels, sl) =
     (case bandLevel cfg sr fd i of
        None \<Rightarrow> None
      | Some level \<Rightarrow>
          if i < length sl then
            (let smoothed = smooth cfg (sl ! i) level
             in liveBands cfg sr fd bands (levels[i := smoothed], sl[i := smoothed]))
          else None)"

text \<open>
  The demo branch. \<open>noise\<close> is the value that \<^verbatim>\<open>Math.random()\<close> returns for this band
  in this frame, a number in \<open>[0, 1)\<close> that the caller of the model supplies.
\<close>

definition demoBase :: "real \<Rightarrow> nat \<Rightarrow> real \<Rightarrow> real" where
  "demoBase timestamp i noise =
     (let wave1 = sin (timestamp / 400 + real i * (4 / 10)) * (3 / 10);
          wave2 = sin (timestamp / 250 + real i * (7 / 10)) * (2 / 10);
          wave3 = sin (timestamp / 600 - real i * (3 / 10)) * (15 / 100)
      in 35 / 100 + wave1 + wave2 + wave3 + noise * (15 / 100))"

fun demoBands :: "config \<Rightarrow> real \<Rightarrow> (nat \<Rightarrow> real) \<Rightarrow> nat list \<Rightarrow> real list \<times> real list
    \<Rightarrow> (real list \<times> real list) option" where
  "demoBands cfg timestamp random [] acc = Some acc"
| "demoBands cfg timestamp random (i # bands) (levels, sl) =
     (if i < length sl then
        (let smoothed = smooth cfg (sl ! i) (demoBase timestamp i (random i))
         in demoBands cfg timestamp random bands
              (levels[i := max (5 / 100) (min 1 smoothed)], sl[i := smoothed]))
      else None)"

text \<open>
  \<^verbatim>\<open>getEQLevels(timestamp)\<close>. Besides the timestamp the model takes what the function
  reads from its environment: the random draws and the magnitudes that the analyser
  would deliver. It returns the levels and the state with the new smoothed levels.
  The result array \<^verbatim>\<open>new Array(CONFIG.eqBarCount)\<close> has no entries at first; the loop
  writes every one of them, and the model starts the array with zeros.
\<close>

definition getEQLevels :: "config \<Rightarrow> real \<Rightarrow> (nat \<Rightarrow> real) \<Rightarrow> 8 word list \<Rightarrow> app_state
    \<Rightarrow> (real list \<times> app_state) option" where
  "getEQLevels cfg timestamp random magnitudes st =
     (let levels = replicate (eqBarCount cfg) 0 in
      if audioMode st \<noteq> Demo \<and> analyser st \<and> frequencyData st \<noteq> None then
        (case (frequencyData st, audioContext st) of
           (Some fd0, Some ctx) \<Rightarrow>
             (let fd = getByteFrequencyData magnitudes fd0 in
              case liveBands cfg (sampleRate ctx) fd [0..<eqBarCount cfg]
                     (levels, smoothedLevels st) of
                None \<Rightarrow> None
              | Some (levels', sl') \<Rightarrow>
                  Some (levels', st\<lparr>frequencyData := Some fd, smoothedLevels := sl'\<rparr>))
         | _ \<Rightarrow> None)
      else
        (case demoBands cfg timestamp random [0..<eqBarCount cfg]
                (levels, smoothedLevels st) of
           None \<Rightarrow> None
         | Some (levels', sl') \<Rightarrow> Some (levels', st\<lparr>smoothedLevels := sl'\<rparr>)))"

text \<open>The level lists of a run of frames; it stops where the model stops.\<close>

fun levelRun :: "config \<Rightarrow> app_state \<Rightarrow> (real \<times> (nat \<Rightarrow> real) \<times> 8 word list) list
    \<Rightarrow> real list list" where
  "levelRun cfg st [] = []"
| "levelRun cfg st ((timestamp, random, magnitudes) # frames) =
     (case getEQLevels cfg timestamp random magnitudes st of
        None \<Rightarrow> []
      | Some (levels, st') \<Rightarrow> levels # levelRun cfg st' frames)"

subsection \<open>\<^verbatim>\<open>updateEQBars\<close>: peak tracking\<close>

text \<open>
  The peak tracker of one band, on the pair \<open>(peakLevels[i], peakHoldTimes[i])\<close>:
  \<^verbatim>\<open>if (level >= peakLevels[i]) { peakLevels[i] = level; peakHoldTimes[i] = timestamp }
  else if (timestamp - peakHoldTimes[i] > CONFIG.peakHoldTime)
    peakLevels[i] = Math.max(level, peakLevels[i] - CONFIG.peakDecay)\<close>.
\<close>

definition trackPeak :: "config \<Rightarrow> real \<Rightarrow> real \<Rightarrow> real \<times> real \<Rightarrow> real \<times> real" where
  "trackPeak cfg timestamp level ph =
     (case ph of (peakLevel, holdTime) \<Rightarrow>
        if level \<ge> peakLevel then (level, timestamp)
        else if timestamp - holdTime > peakHoldTime cfg
          then (max level (peakLevel - peakDecay cfg), holdTime)
        else (peakLevel, holdTime))"

text \<open>The tracker of one band over successive frames \<open>(timestamp, level)\<close>.\<close>

fun trackPeaks :: "config \<Rightarrow> real \<times> real \<Rightarrow> (real \<times> real) list \<Rightarrow> real \<times> real" where
  "trackPeaks cfg ph [] = ph"
| "trackPeaks cfg ph ((timestamp, level) # frames) =
     trackPeaks cfg (trackPeak cfg timestamp level ph) frames"

definition litCount :: "config \<Rightarrow> real \<Rightarrow> int" where
  "litCount cfg level = \<lfloor>level * real (eqSegmentCount cfg)\<rfloor>"

definition peakSegment :: "config \<Rightarrow> real \<Rightarrow> int" where
  "peakSegment cfg peakLevel =
     min (int (eqSegmentCount cfg) - 1) \<lfloor>peakLevel * real (eqSegmentCount cfg)\<rfloor>"

subsection \<open>\<^verbatim>\<open>updateEQBars\<close>: segments\<close>

text \<open>
  What the loop body computes for segment \<open>j\<close> from \<^verbatim>\<open>litCount\<close> and \<^verbatim>\<open>peakSegment\<close>:
  \<^verbatim>\<open>shouldBeLit\<close>, \<^verbatim>\<open>targetColor\<close>, \<^verbatim>\<open>isTopLit\<close> and \<^verbatim>\<open>shouldBePeak\<close>, held in the
  fields of a segment that the body compares them with.
\<close>

definition targetColor :: "nat \<Rightarrow> bool \<Rightarrow> bool \<Rightarrow> colour option" where
  "targetColor j shouldBeLit shouldBePeak =
     (if shouldBeLit \<or> shouldBePeak then
        (if j \<ge> 10 then Some Red else if j \<ge> 8 then Some Amber else Some Blue)
      else None)"

definition segmentTarget :: "nat \<Rightarrow> int \<Rightarrow> int \<Rightarrow> segment" where
  "segmentTarget j lc ps =
     (let shouldBeLit = int j < lc;
          shouldBePeak = (\<not> shouldBeLit \<and> int j = ps \<and> ps \<ge> lc);
          isTopLit = (shouldBeLit \<and> int j = lc - 1)
      in \<lparr> lit = shouldBeLit, color = targetColor j shouldBeLit shouldBePeak,
           peak = isTopLit, isPeakHold = shouldBePeak \<rparr>)"

text \<open>
  The writes to the class list of the element of segment \<open>j\<close> of bar \<open>i\<close>:
  \<^verbatim>\<open>cl.toggle(name, force)\<close>, \<^verbatim>\<open>cl.remove(name)\<close> and \<^verbatim>\<open>cl.add(name)\<close>.
\<close>

datatype dom_op =
    Toggle nat nat string bool
  | Remove nat nat string
  | Add nat nat string

definition colourName :: "colour \<Rightarrow> string" where
  "colourName c = (case c of Red \<Rightarrow> ''red'' | Amber \<Rightarrow> ''amber'' | Blue \<Rightarrow> ''blue'')"

text \<open>
  The guarded part of the body: nothing happens unless \<^verbatim>\<open>needsUpdate\<close>; then each of
  the four cached fields that differs is rewritten and its class is changed.
\<close>

definition applyTarget :: "nat \<Rightarrow> nat \<Rightarrow> segment \<Rightarrow> segment \<Rightarrow> segment \<times> dom_op list" where
  "applyTarget i j tgt seg =
     (let needsUpdate = (lit seg \<noteq> lit tgt \<or> color seg \<noteq> color tgt \<or>
                         peak seg \<noteq> peak tgt \<or> isPeakHold seg \<noteq> isPeakHold tgt)
      in if needsUpdate then
           (let (seg1, ops1) =
                  (if lit seg \<noteq> lit tgt
                   then (seg\<lparr>lit := lit tgt\<rparr>, [Toggle i j ''eq-segment--lit'' (lit tgt)])
                   else (seg, []));
                (seg2, ops2) =
                  (if color seg1 \<noteq> color tgt
                   then (seg1\<lparr>color := color tgt\<rparr>,
                         (case color seg1 of
                            Some c \<Rightarrow> [Remove i j (''eq-segment--'' @ colourName c)]
                          | None \<Rightarrow> []) @
                         (case color tgt of
                            Some c \<Rightarrow> [Add i j (''eq-segment--'' @ colourName c)]
                          | None \<Rightarrow> []))
                   else (seg1, []));
                (seg3, ops3) =
                  (if peak seg2 \<noteq> peak tgt
                   then (seg2\<lparr>peak := peak tgt\<rparr>, [Toggle i j ''eq-segment--peak'' (peak tgt)])
                   else (seg2, []));
                (seg4, ops4) =
                  (if isPeakHold seg3 \<noteq> isPeakHold tgt
                   then (seg3\<lparr>isPeakHold := isPeakHold tgt\<rparr>,
                         [Toggle i j ''eq-segment--peak-hold'' (isPeakHold tgt)])
                   else (seg3, []))
            in (seg4, ops1 @ ops2 @ ops3 @ ops4))
         else (seg, []))"

definition updateSegment :: "nat \<Rightarrow> nat \<Rightarrow> int \<Rightarrow> int \<Rightarrow> segment \<Rightarrow> segment \<times> dom_op list" where
  "updateSegment i j lc ps seg = applyTarget i j (segmentTarget j lc ps) seg"

text \<open>The loop over the segments of bar \<open>i\<close>; the class-list writes are collected in order.\<close>

fun segmentLoop :: "nat \<Rightarrow> int \<Rightarrow> int \<Rightarrow> nat list \<Rightarrow> segment list \<times> dom_op list
    \<Rightarrow> segment list \<times> dom_op list" where
  "segmentLoop i lc ps [] acc = acc"
| "segmentLoop i lc ps (j # js) (barSegments, ops) =
     (let (seg, ops') = updateSegment i j lc ps (barSegments ! j)
      in segmentLoop i lc ps js (barSegments[j := seg], ops @ ops'))"

text \<open>The body of the loop over the bars, for bar \<open>i\<close>.\<close>

definition updateBar :: "config \<Rightarrow> real \<Rightarrow> real list \<Rightarrow> nat \<Rightarrow> app_state \<times> dom_op list
    \<Rightarrow> app_state \<times> dom_op list" where
  "updateBar cfg timestamp levels i acc =
     (case acc of (st, ops) \<Rightarrow>
        let level = levels ! i;
            lc = litCount cfg level;
            (peakLevel, holdTime) =
               trackPeak cfg timestamp level (peakLevels st ! i, peakHoldTimes st ! i);
            st1 = st\<lparr>peakLevels := (peakLevels st)[i := peakLevel],
                      peakHoldTimes := (peakHoldTimes st)[i := holdTime]\<rparr>;
            ps = peakSegment cfg (peakLevels st1 ! i);
            (barSegments, ops') =
               segmentLoop i lc ps [0..<eqSegmentCount cfg] (segments st1 ! i, [])
        in (st1\<lparr>segments := (segments st1)[i := barSegments]\<rparr>, ops @ ops'))"

definition barLoop :: "config \<Rightarrow> real \<Rightarrow> real list \<Rightarrow> app_state \<Rightarrow> app_state \<times> dom_op list" where
  "barLoop cfg timestamp levels st =
     fold (updateBar cfg timestamp levels) [0..<eqBarCount cfg] (st, [])"

text \<open>
  \<^verbatim>\<open>updateEQBars(timestamp)\<close>: a frame that comes too early only asks for the next
  one. \<open>frameId\<close> is what \<^verbatim>\<open>requestAnimationFrame\<close> returns. The result is the new state
  and the class-list writes of the frame.
\<close>

definition updateEQBars :: "config \<Rightarrow> real \<Rightarrow> (nat \<Rightarrow> real) \<Rightarrow> 8 word list \<Rightarrow> nat \<Rightarrow> app_state
    \<Rightarrow> (app_state \<times> dom_op list) option" where
  "updateEQBars cfg timestamp random magnitudes frameId st =
     (if timestamp - lastEqUpdate st < eqUpdateInterval cfg
      then Some (st\<lparr>eqAnimationId := Some frameId\<rparr>, [])
      else
        (case getEQLevels cfg timestamp random magnitudes (st\<lparr>lastEqUpdate := timestamp\<rparr>) of
           None \<Rightarrow> None
         | Some (levels, st1) \<Rightarrow>
             (case barLoop cfg timestamp levels st1 of
                (st2, ops) \<Rightarrow> Some (st2\<lparr>eqAnimationId := Some frameId\<rparr>, ops))))"

text \<open>
  The state is well formed when its arrays have the sizes that \<^verbatim>\<open>buildEQBars\<close> gives
  them; the loops above then read and write inside the arrays.
\<close>

definition wellFormed :: "config \<Rightarrow> app_state \<Rightarrow> bool" where
  "wellFormed cfg st =
     (length (smoothedLevels st) = eqBarCount cfg \<and>
      length (peakLevels st) = eqBarCount cfg \<and>
      length (peakHoldTimes st) = eqBarCount cfg \<and>
      length (segments st) = eqBarCount cfg \<and>
      list_all (\<lambda>barSegments. length barSegments = eqSegmentCount cfg) (segments st))"

subsection \<open>Audio sources\<close>

text \<open>
  What the browser answers to the calls that an activation makes: the audio context
  that \<^verbatim>\<open>new AudioContext()\<close> returns, whether \<^verbatim>\<open>audioContext.resume()\<close> is rejected,
  the stream of \<^verbatim>\<open>getUserMedia\<close>, the nodes of \<^verbatim>\<open>createMediaStreamSource\<close> and
  \<^verbatim>\<open>createMediaElementSource\<close>, and the element of \<^verbatim>\<open>new Audio()\<close>. A failing call
  answers with the message of its error (\<open>Inl\<close>).
\<close>

record host =
  newAudioContext :: "string + audio_context"
  resume :: "string option"
  getUserMedia :: "string + nat"
  createMediaStreamSource :: "string + nat"
  newAudio :: nat
  createMediaElementSource :: "string + nat"

text \<open>
  \<^verbatim>\<open>stopAudioSource\<close>: stop the tracks of the microphone stream, unload the audio
  element, disconnect the source node, reset the buttons, and go to demo mode. It
  does not disconnect the analyser from the loudspeakers; no function of the source
  does.
\<close>

definition stopAudioSource :: "app_state \<Rightarrow> app_state" where
  "stopAudioSource st =
     (let st1 = (case micStream st of
                   Some stream \<Rightarrow> st\<lparr>liveStreams := liveStreams st - {stream}, micStream := None\<rparr>
                 | None \<Rightarrow> st);
          st2 = (case audioElement st1 of
                   Some el \<Rightarrow> st1\<lparr>loadedElements := loadedElements st1 - {el},
                                 audioElement := None\<rparr>
                 | None \<Rightarrow> st1);
          st3 = (case audioSource st2 of
                   Some node \<Rightarrow> st2\<lparr>connectedSources := connectedSources st2 - {node},
                                   audioSource := None\<rparr>
                 | None \<Rightarrow> st2)
      in st3\<lparr>micBtnActive := False, micBtnText := ''MIC'',
              playPauseBtnDisabled := True, playPauseBtnText := ''PLAY'',
              audioMode := Demo, isPlaying := False\<rparr>)"

definition stopMicrophone :: "app_state \<Rightarrow> app_state" where
  "stopMicrophone st =
     (let st1 = (case micStream st of
                   Some stream \<Rightarrow> st\<lparr>liveStreams := liveStreams st - {stream}, micStream := None\<rparr>
                 | None \<Rightarrow> st);
          st2 = (case audioSource st1 of
                   Some node \<Rightarrow> st1\<lparr>connectedSources := connectedSources st1 - {node},
                                   audioSource := None\<rparr>
                 | None \<Rightarrow> st1);
          st3 = st2\<lparr>audioMode := Demo, micBtnActive := False, micBtnText := ''MIC''\<rparr>
      in addLog ''MICROPHONE DISCONNECTED'' (setOutput ''READY...'' st3))"

text \<open>
  A function that can throw returns the state it has reached and the message of the
  error that leaves it, if any.

  \<^verbatim>\<open>initAudioContext\<close> does nothing when the context exists. Otherwise it creates the
  context, the analyser and the frequency array (\<^verbatim>\<open>frequencyBinCount\<close> is half of
  \<^verbatim>\<open>fftSize\<close>), and fills the three arrays of the bands with zero again.
\<close>

definition initAudioContext :: "config \<Rightarrow> host \<Rightarrow> app_state \<Rightarrow> app_state \<times> string option" where
  "initAudioContext cfg h st =
     (if audioContext st \<noteq> None then (st, None)
      else
        (case newAudioContext h of
           Inl err \<Rightarrow> (st, Some err)
         | Inr ctx \<Rightarrow>
             (addLog ''AUDIO ENGINE INITIALIZED''
                (st\<lparr>audioContext := Some ctx, analyser := True,
                     frequencyData := Some (replicate (fftSize cfg div 2) 0),
                     smoothedLevels := replicate (eqBarCount cfg) 0,
                     peakLevels := replicate (eqBarCount cfg) 0,
                     peakHoldTimes := replicate (eqBarCount cfg) 0\<rparr>), None)))"

text \<open>
  Statements that can throw are put in sequence with \<open>andThen\<close>: the first error ends
  the sequence, and the state reached so far stays as it is.
\<close>

definition andThen :: "app_state \<times> string option \<Rightarrow> (app_state \<Rightarrow> app_state \<times> string option)
    \<Rightarrow> app_state \<times> string option" where
  "andThen r f = (case r of (st, Some err) \<Rightarrow> (st, Some err) | (st, None) \<Rightarrow> f st)"

text \<open>
  The statements of the \<^verbatim>\<open>try\<close> block of \<^verbatim>\<open>toggleMicrophone\<close> after
  \<^verbatim>\<open>initAudioContext()\<close>. The first one resumes a suspended context; reading
  \<^verbatim>\<open>state.audioContext.state\<close> of a missing context would be a \<^verbatim>\<open>TypeError\<close>. The
  second one awaits \<^verbatim>\<open>getUserMedia\<close> and stores the stream, the third one creates the
  source node of the stream and connects it to the analyser, and the last one, which
  cannot fail, switches to microphone mode and reports it.
\<close>

definition resumeIfSuspended :: "host \<Rightarrow> app_state \<Rightarrow> app_state \<times> string option" where
  "resumeIfSuspended h st =
     (case audioContext st of
        None \<Rightarrow> (st, Some ''TypeError'')
      | Some ctx \<Rightarrow>
          if suspended ctx then
            (case resume h of
               Some err \<Rightarrow> (st, Some err)
             | None \<Rightarrow> (st\<lparr>audioContext := Some (ctx\<lparr>suspended := False\<rparr>)\<rparr>, None))
          else (st, None))"

definition openMicrophone :: "host \<Rightarrow> app_state \<Rightarrow> app_state \<times> string option" where
  "openMicrophone h st =
     (case getUserMedia h of
        Inl err \<Rightarrow> (st, Some err)
      | Inr stream \<Rightarrow>
          (st\<lparr>micStream := Some stream, liveStreams := insert stream (liveStreams st)\<rparr>, None))"

definition connectMicrophone :: "host \<Rightarrow> app_state \<Rightarrow> app_state \<times> string option" where
  "connectMicrophone h st =
     (case createMediaStreamSource h of
        Inl err \<Rightarrow> (st, Some err)
      | Inr node \<Rightarrow>
          (st\<lparr>audioSource := Some node,
               connectedSources := insert node (connectedSources st)\<rparr>, None))"

definition microphoneActive :: "app_state \<Rightarrow> app_state \<times> string option" where
  "microphoneActive st =
     (addLog ''MICROPHONE CONNECTED''
        (setOutput ''MICROPHONE ACTIVE''
           (st\<lparr>audioMode := Mic, micBtnActive := True, micBtnText := ''MIC ON''\<rparr>)), None)"

definition micActivation :: "config \<Rightarrow> host \<Rightarrow> app_state \<Rightarrow> app_state \<times> string option" where
  "micActivation cfg h st =
     andThen (andThen (andThen (andThen (initAudioContext cfg h st)
       (resumeIfSuspended h)) (openMicrophone h)) (connectMicrophone h)) microphoneActive"

text \<open>
  \<^verbatim>\<open>toggleMicrophone\<close>, from the call to the settling of the promise it returns, with
  no other handler running in between. The \<^verbatim>\<open>catch\<close> writes the error to the log and
  to the output display; the promise is fulfilled either way, so nothing is thrown to
  the caller: the second component is always \<open>None\<close>.

  \<^verbatim>\<open>toggleMicrophone\<close> is an \<^verbatim>\<open>async\<close> function: at \<^verbatim>\<open>await audioContext.resume()\<close> and
  at \<^verbatim>\<open>await getUserMedia(...)\<close> it gives the control back, and other handlers of the
  page can run before it goes on. The function is therefore also given in the pieces
  that run without interruption, further down: \<open>toggleMicrophoneCall\<close>,
  \<open>resumeSettled\<close> and \<open>userMediaSettled\<close>. \<open>toggleMicrophone\<close> is what they do one right
  after the other.
\<close>

definition toggleMicrophone :: "config \<Rightarrow> host \<Rightarrow> app_state \<Rightarrow> app_state \<times> string option" where
  "toggleMicrophone cfg h st =
     (if audioMode st = Mic then (stopMicrophone st, None)
      else
        (case micActivation cfg h (stopAudioSource st) of
           (st1, None) \<Rightarrow> (st1, None)
         | (st1, Some err) \<Rightarrow>
             (setOutput ''MIC ACCESS DENIED'' (addLog (''MIC ERROR: '' @ err) st1), None)))"

text \<open>The \<^verbatim>\<open>catch\<close> block of \<^verbatim>\<open>toggleMicrophone\<close>.\<close>

definition catchMicError :: "string \<Rightarrow> app_state \<Rightarrow> app_state" where
  "catchMicError err st = setOutput ''MIC ACCESS DENIED'' (addLog (''MIC ERROR: '' @ err) st)"

text \<open>
  The pieces of \<^verbatim>\<open>toggleMicrophone\<close> between its suspensions. A piece ends with the
  promise of \<^verbatim>\<open>toggleMicrophone\<close> settled, or waiting for \<^verbatim>\<open>resume()\<close>, or waiting for
  \<^verbatim>\<open>getUserMedia\<close>.
\<close>

datatype pending = Settled | AwaitingResume | AwaitingUserMedia

text \<open>
  From the call to the first \<^verbatim>\<open>await\<close>: \<^verbatim>\<open>stopMicrophone\<close> when the microphone is on;
  otherwise \<^verbatim>\<open>stopAudioSource\<close>, \<^verbatim>\<open>initAudioContext\<close> and the test of the state of the
  context, which decides what is awaited first. An error goes to the \<^verbatim>\<open>catch\<close>.
\<close>

definition toggleMicrophoneCall :: "config \<Rightarrow> host \<Rightarrow> app_state \<Rightarrow> app_state \<times> pending" where
  "toggleMicrophoneCall cfg h st =
     (if audioMode st = Mic then (stopMicrophone st, Settled)
      else
        (case initAudioContext cfg h (stopAudioSource st) of
           (st1, Some err) \<Rightarrow> (catchMicError err st1, Settled)
         | (st1, None) \<Rightarrow>
             (case audioContext st1 of
                None \<Rightarrow> (catchMicError ''TypeError'' st1, Settled)
              | Some ctx \<Rightarrow>
                  if suspended ctx then (st1, AwaitingResume) else (st1, AwaitingUserMedia))))"


text \<open>
  What follows \<^verbatim>\<open>await navigator.mediaDevices.getUserMedia(...)\<close>, in the state that
  the page has when the promise settles: the rest of the \<^verbatim>\<open>try\<close> block, and the
  \<^verbatim>\<open>catch\<close> for a rejection or for an error of the rest.
\<close>

definition userMediaSettled :: "host \<Rightarrow> app_state \<Rightarrow> app_state" where
  "userMediaSettled h st =
     (case andThen (andThen (openMicrophone h st) (connectMicrophone h)) microphoneActive of
        (st1, None) \<Rightarrow> st1
      | (st1, Some err) \<Rightarrow> catchMicError err st1)"


text \<open>
  \<^verbatim>\<open>String.prototype.toUpperCase\<close> on the letters \<^verbatim>\<open>a\<close> to \<^verbatim>\<open>z\<close>; every other character is
  left as it is, also the accented and the non-Latin letters that JavaScript would
  change.
\<close>

definition toUpperCase :: "string \<Rightarrow> string" where
  "toUpperCase str =
     map (\<lambda>c. let n = (of_char c :: nat)
               in if 97 \<le> n \<and> n \<le> 122 then char_of (n - 32) else c) str"

text \<open>
  The statements of \<^verbatim>\<open>handleFileSelect\<close> after \<^verbatim>\<open>initAudioContext()\<close>: a new audio
  element takes the place of the old one and loads the file; its source node is
  created and connected to the analyser, and the analyser to the loudspeakers; then
  the mode is switched and reported.
\<close>

definition createAudioElement :: "host \<Rightarrow> app_state \<Rightarrow> app_state \<times> string option" where
  "createAudioElement h st =
     (let st1 = (case audioElement st of
                   Some el \<Rightarrow> st\<lparr>loadedElements := loadedElements st - {el}\<rparr>
                 | None \<Rightarrow> st)
      in (st1\<lparr>audioElement := Some (newAudio h),
               loadedElements := insert (newAudio h) (loadedElements st1)\<rparr>, None))"

definition connectElement :: "host \<Rightarrow> app_state \<Rightarrow> app_state \<times> string option" where
  "connectElement h st =
     (case createMediaElementSource h of
        Inl err \<Rightarrow> (st, Some err)
      | Inr node \<Rightarrow>
          (st\<lparr>audioSource := Some node,
               connectedSources := insert node (connectedSources st),
               destinationConnected := True\<rparr>, None))"

definition fileActive :: "string \<Rightarrow> app_state \<Rightarrow> app_state \<times> string option" where
  "fileActive name st =
     (let displayName = (if length name > 20 then take 17 name @ ''...'' else name)
      in (addLog (''LOADED: '' @ name)
            (setOutput (toUpperCase displayName)
               (st\<lparr>audioMode := File, isPlaying := False,
                    playPauseBtnDisabled := False, playPauseBtnText := ''PLAY''\<rparr>)), None))"

text \<open>
  \<^verbatim>\<open>handleFileSelect\<close>; \<open>selected\<close> is the name of \<^verbatim>\<open>event.target.files[0]\<close>, if there
  is one. There is no \<^verbatim>\<open>try\<close> here: an error leaves the function. The listener for
  the end of the playback, which only runs when a playback ends, is left out.
\<close>

definition handleFileSelect :: "config \<Rightarrow> host \<Rightarrow> string option \<Rightarrow> app_state
    \<Rightarrow> app_state \<times> string option" where
  "handleFileSelect cfg h selected st =
     (case selected of
        None \<Rightarrow> (st, None)
      | Some name \<Rightarrow>
          andThen (andThen (andThen (initAudioContext cfg h (stopAudioSource st))
            (createAudioElement h)) (connectElement h)) (fileActive name))"


text \<open>
  The browser holds nothing but what the state refers to; in particular at most one
  source node is connected to the analyser.
\<close>

definition ownsResources :: "app_state \<Rightarrow> bool" where
  "ownsResources st =
     (liveStreams st \<subseteq> set_option (micStream st) \<and>
      loadedElements st \<subseteq> set_option (audioElement st) \<and>
      connectedSources st \<subseteq> set_option (audioSource st))"

subsection \<open>The tuples of a frame\<close>

text \<open>
  The tuples \<open>(lit, color, peak, isPeakHold)\<close> that a frame computes for the segments
  of one bar, from the level of the bar and its peak state before the frame, and for
  all bars of a state.
\<close>

definition barTargets :: "config \<Rightarrow> real \<Rightarrow> real \<Rightarrow> real \<times> real \<Rightarrow> segment list" where
  "barTargets cfg timestamp level ph =
     (let lc = litCount cfg level;
          ps = peakSegment cfg (fst (trackPeak cfg timestamp level ph))
      in map (\<lambda>j. segmentTarget j lc ps) [0..<eqSegmentCount cfg])"

definition frameTargets :: "config \<Rightarrow> real \<Rightarrow> real list \<Rightarrow> app_state \<Rightarrow> segment list list" where
  "frameTargets cfg timestamp levels st =
     map (\<lambda>i. barTargets cfg timestamp (levels ! i) (peakLevels st ! i, peakHoldTimes st ! i))
       [0..<eqBarCount cfg]"

text \<open>
  The tuples that a call of \<^verbatim>\<open>updateEQBars\<close> computes; a call that comes too early
  computes none.
\<close>

definition tickTargets :: "config \<Rightarrow> real \<Rightarrow> (nat \<Rightarrow> real) \<Rightarrow> 8 word list \<Rightarrow> app_state
    \<Rightarrow> segment list list option" where
  "tickTargets cfg timestamp random magnitudes st =
     (if timestamp - lastEqUpdate st < eqUpdateInterval cfg then None
      else
        (case getEQLevels cfg timestamp random magnitudes (st\<lparr>lastEqUpdate := timestamp\<rparr>) of
           None \<Rightarrow> None
         | Some (levels, st1) \<Rightarrow> Some (frameTargets cfg timestamp levels st1)))"

subsection \<open>Concrete inputs\<close>

text \<open>
  A configuration with the two bands 0--1000 Hz (gain 1) and 1000--2000 Hz (gain 2);
  the other settings are those of \<^verbatim>\<open>CONFIG\<close>.
\<close>

definition twoBands :: config where
  "twoBands = CONFIG\<lparr>eqBarCount := 2, frequencyBands := [0, 1000, 2000], bandGains := [1, 2]\<rparr>"

text \<open>
  A display of one bar with two segments whose smoothing factor is 1, so that the
  smoothed level stays where it is; random draws that are all 0, or all 0.5; the
  state after a first frame at 50 ms from the initial state; and the tuples of a bar
  that shows nothing but a peak marker on its lowest segment.
\<close>

definition oneBar :: config where
  "oneBar = CONFIG\<lparr>eqBarCount := 1, eqSegmentCount := 2, smoothing := 1\<rparr>"

definition noNoise :: "nat \<Rightarrow> real" where
  "noNoise i = 0"

definition halfNoise :: "nat \<Rightarrow> real" where
  "halfNoise i = 1 / 2"

text \<open>
  The initial state with other smoothed levels: those that make up for the demo
  waves of the frame at timestamp \<open>t\<close> with the draws \<open>r\<close>, so that the new smoothed
  level of every band is 0.46.
\<close>

definition cancellingState :: "real \<Rightarrow> (nat \<Rightarrow> real) \<Rightarrow> app_state" where
  "cancellingState t r = (initialState CONFIG)\<lparr>smoothedLevels :=
     map (\<lambda>i. (46 / 100 - demoBase t i (r i) * (4 / 10)) / (6 / 10)) [0..<eqBarCount CONFIG]\<rparr>"

definition afterFirstFrame :: app_state where
  "afterFirstFrame =
     (case updateEQBars oneBar 50 noNoise [] 1 (initialState oneBar) of
        Some (st, ops) \<Rightarrow> st
      | None \<Rightarrow> initialState oneBar)"

definition peakMarkerOnly :: "segment list list" where
  "peakMarkerOnly =
     [[\<lparr> lit = False, color = Some Blue, peak = False, isPeakHold = True \<rparr>, newSegment]]"

text \<open>
  A browser that grants every request, one that denies the microphone, and one whose
  \<^verbatim>\<open>createMediaElementSource\<close> throws; the state after the microphone has been switched
  on from the initial state; and the state after one demo frame at timestamp 0 with
  every draw 0.5.
\<close>

definition grantingHost :: host where
  "grantingHost = \<lparr> newAudioContext = Inr \<lparr> sampleRate = 44100, suspended = False \<rparr>,
     resume = None, getUserMedia = Inr 1, createMediaStreamSource = Inr 2,
     newAudio = 3, createMediaElementSource = Inr 4 \<rparr>"



definition micOn :: app_state where
  "micOn = fst (toggleMicrophone CONFIG grantingHost (initialState CONFIG))"

definition afterDemoFrame :: app_state where
  "afterDemoFrame =
     (case getEQLevels CONFIG 0 halfNoise [] (initialState CONFIG) of
        Some (levels, st) \<Rightarrow> st
      | None \<Rightarrow> initialState CONFIG)"



definition fileDuringAwait :: "host \<Rightarrow> app_state" where
  "fileDuringAwait h =
     fst (handleFileSelect CONFIG h (Some ''song.mp3'')
            (fst (toggleMicrophoneCall CONFIG h (initialState CONFIG))))"


section \<open>Properties\<close>

subsection \<open>Smoothing stays in the unit interval\<close>

lemma smooth_range:
  assumes "0 \<le> smoothing cfg" "smoothing cfg \<le> 1" "0 \<le> s" "s \<le> 1" "0 \<le> r" "r \<le> 1"
  shows "0 \<le> smooth cfg s r \<and> smooth cfg s r \<le> 1"
proof -
  let ?a = "smoothing cfg"
  have lo: "0 \<le> s * ?a + r * (1 - ?a)" using assms by simp
  have "s * ?a \<le> 1 * ?a" using assms by (intro mult_right_mono) auto
  moreover have "r * (1 - ?a) \<le> 1 * (1 - ?a)" using assms by (intro mult_right_mono) auto
  ultimately have "s * ?a + r * (1 - ?a) \<le> 1" by simp
  with lo show ?thesis by (simp add: smooth_def)
qed

text \<open>
  C6. With a smoothing factor in \<open>[0, 1]\<close>, a smoothed value that starts in \<open>[0, 1]\<close>
  and is updated by \<open>smoothed * alpha + raw * (1 - alpha)\<close> with raw levels in \<open>[0, 1]\<close>
  is in \<open>[0, 1]\<close> after every update.
\<close>

theorem smoothed_level_in_unit_interval:
  assumes "0 \<le> smoothing cfg" "smoothing cfg \<le> 1"
  shows "0 \<le> s \<Longrightarrow> s \<le> 1 \<Longrightarrow> \<forall>r \<in> set raws. 0 \<le> r \<and> r \<le> 1 \<Longrightarrow>
    \<forall>x \<in> set (smoothRun cfg s raws). 0 \<le> x \<and> x \<le> 1"
proof (induction raws arbitrary: s)
  case Nil
  then show ?case by simp
next
  case (Cons r raws)
  have r: "0 \<le> r" "r \<le> 1" using Cons.prems by auto
  have st: "0 \<le> smooth cfg s r \<and> smooth cfg s r \<le> 1"
    using smooth_range[OF assms Cons.prems(1,2) r] .
  with Cons.IH[of "smooth cfg s r"] Cons.prems(3) show ?case by simp
qed

text \<open>
  The theorem at the factor 0.6 of \<^verbatim>\<open>CONFIG\<close>, from 0, with the raw levels 1, 1, 1:
  the smoothed values are 0.4, 0.64 and 0.784.
\<close>

theorem smoothed_level_in_unit_interval_witness:
  "0 \<le> smoothing CONFIG \<and> smoothing CONFIG \<le> 1 \<and>
   smoothRun CONFIG 0 [1, 1, 1] = [4 / 10, 64 / 100, 784 / 1000] \<and>
   0 \<le> smoothRun CONFIG 0 [1, 1, 1] ! 2 \<and> smoothRun CONFIG 0 [1, 1, 1] ! 2 \<le> 1"
  using smoothed_level_in_unit_interval [of CONFIG 0 "[1, 1, 1]"]
  by (simp add: smooth_def CONFIG_def)

subsection \<open>The bins of a band\<close>

lemma sumBins_Some:
  "\<forall>bin \<in> set bins. 0 \<le> bin \<and> bin < int (length fd) \<Longrightarrow>
   sumBins fd bins (s, c) =
     Some (s + sum_list (map (\<lambda>bin. unat (fd ! nat bin)) bins), c + length bins)"
  by (induction bins arbitrary: s c) (auto simp: readBin_def)

lemma lowBin_nonneg:
  "0 \<le> frequencyBands cfg ! i \<Longrightarrow> 0 < sr \<Longrightarrow> 0 \<le> lowBin cfg sr B i"
  by (simp add: lowBin_def)

lemma highBin_le: "highBin cfg sr B i \<le> int B - 1"
  by (simp add: highBin_def)

lemma bandBins_range:
  "0 \<le> frequencyBands cfg ! i \<Longrightarrow> 0 < sr \<Longrightarrow> bin \<in> set (bandBins cfg sr B i)
   \<Longrightarrow> 0 \<le> bin \<and> bin \<le> int B - 1"
  using lowBin_nonneg[of cfg i sr B] highBin_le[of cfg sr B i] by (auto simp: bandBins_def)

text \<open>With boundaries that are not negative, the level of a band is the clamped mean.\<close>

lemma bandLevel_eq:
  assumes "0 \<le> frequencyBands cfg ! i" "0 < sr"
    "i + 1 < length (frequencyBands cfg)" "i < length (bandGains cfg)"
  shows "bandLevel cfg sr fd i =
     Some (min 1 ((if bandBins cfg sr (length fd) i \<noteq> []
       then real (sum_list (map (\<lambda>bin. unat (fd ! nat bin)) (bandBins cfg sr (length fd) i)))
              / real (length (bandBins cfg sr (length fd) i)) / 255
       else 0) * bandGains cfg ! i))"
proof -
  have "\<forall>bin \<in> set (bandBins cfg sr (length fd) i). 0 \<le> bin \<and> bin < int (length fd)"
    using bandBins_range[OF assms(1,2)] by fastforce
  from sumBins_Some[OF this, of 0 0] show ?thesis
    using assms by (simp add: bandLevel_def)
qed

lemma CONFIG_bands_nonneg: "i < 17 \<Longrightarrow> 0 \<le> frequencyBands CONFIG ! i"
proof -
  assume "i < 17"
  have "\<forall>x \<in> set (frequencyBands CONFIG). 0 \<le> x" by (simp add: CONFIG_def)
  moreover have "length (frequencyBands CONFIG) = 17" by (simp add: CONFIG_def)
  ultimately show ?thesis using \<open>i < 17\<close> by (metis nth_mem)
qed

lemma bandLevel_range:
  assumes "0 \<le> bandGains cfg ! i" "bandLevel cfg sr fd i = Some l"
  shows "0 \<le> l \<and> l \<le> 1"
  using assms by (auto simp: bandLevel_def Let_def split: if_splits option.splits)

text \<open>
  C10. In the live branch, with at least one bin and a positive sample rate, every bin
  that the averaging loop of a band reads is between 0 and \<open>B - 1\<close>, so no read leaves
  the array and the band has a level; and when the loop has counted no bin, the level
  is 0.
\<close>

theorem live_reads_in_range:
  assumes "1 \<le> length fd" "0 < sr" "i < eqBarCount CONFIG"
  shows "(\<forall>bin \<in> set (bandBins CONFIG sr (length fd) i).
            0 \<le> bin \<and> bin \<le> int (length fd) - 1 \<and> readBin fd bin \<noteq> None) \<and>
         (\<exists>binSum count.
            sumBins fd (bandBins CONFIG sr (length fd) i) (0, 0) = Some (binSum, count) \<and>
            (\<exists>level. bandLevel CONFIG sr fd i = Some level) \<and>
            (count = 0 \<longrightarrow> bandLevel CONFIG sr fd i = Some 0))"
proof -
  have i: "i < 16" using assms(3) by (simp add: CONFIG_def)
  then have nn: "0 \<le> frequencyBands CONFIG ! i" by (simp add: CONFIG_bands_nonneg)
  have len: "i + 1 < length (frequencyBands CONFIG)" "i < length (bandGains CONFIG)"
    using i by (simp_all add: CONFIG_def)
  have r: "\<forall>bin \<in> set (bandBins CONFIG sr (length fd) i). 0 \<le> bin \<and> bin < int (length fd)"
    using bandBins_range[OF nn assms(2)] by fastforce
  then have 1: "\<forall>bin \<in> set (bandBins CONFIG sr (length fd) i).
            0 \<le> bin \<and> bin \<le> int (length fd) - 1 \<and> readBin fd bin \<noteq> None"
    by (auto simp: readBin_def)
  have s: "sumBins fd (bandBins CONFIG sr (length fd) i) (0, 0) =
    Some (0 + sum_list (map (\<lambda>bin. unat (fd ! nat bin)) (bandBins CONFIG sr (length fd) i)),
          0 + length (bandBins CONFIG sr (length fd) i))"
    using sumBins_Some[OF r] .
  have 2: "\<exists>level. bandLevel CONFIG sr fd i = Some level"
    using bandLevel_eq[OF nn assms(2) len] by simp
  have 3: "length (bandBins CONFIG sr (length fd) i) = 0 \<longrightarrow> bandLevel CONFIG sr fd i = Some 0"
    using bandLevel_eq[OF nn assms(2) len, of fd] by simp
  show ?thesis using 1 s 2 3 by simp
qed

lemma above_nyquist: "bandBins CONFIG 8000 256 14 = []"
  by (simp add: bandBins_def lowBin_def highBin_def CONFIG_def)

text \<open>
  The theorem at 256 bins of full magnitude: at 44100 Hz the first band has a level;
  at 8000 Hz the band from 6000 Hz to 12000 Hz lies above the Nyquist frequency, its
  loop reads no bin and its level is 0.
\<close>

theorem live_reads_in_range_witness:
  "1 \<le> length (replicate 256 (255 :: 8 word)) \<and> (0 :: real) < 44100 \<and>
   (0 :: nat) < eqBarCount CONFIG \<and> (14 :: nat) < eqBarCount CONFIG \<and> (0 :: real) < 8000 \<and>
   (\<exists>level. bandLevel CONFIG 44100 (replicate 256 255) 0 = Some level) \<and>
   bandLevel CONFIG 8000 (replicate 256 255) 14 = Some 0"
proof -
  have h: "1 \<le> length (replicate 256 (255 :: 8 word))" "(0 :: real) < 44100"
    "(0 :: nat) < eqBarCount CONFIG" "(14 :: nat) < eqBarCount CONFIG" "(0 :: real) < 8000"
    by (simp_all add: CONFIG_def)
  have a: "\<exists>level. bandLevel CONFIG 44100 (replicate 256 255) 0 = Some level"
    using live_reads_in_range [OF h(1) h(2) h(3)] by blast
  have b: "bandLevel CONFIG 8000 (replicate 256 255) 14 = Some 0"
    using live_reads_in_range [OF h(1) h(5) h(4)] by (simp add: above_nyquist)
  show ?thesis using h a b by blast
qed

text \<open>
  In a live frame the level of every band is in \<open>[0, 1]\<close> when the gains are not
  negative, so smoothed levels that are in \<open>[0, 1]\<close> before the frame are in \<open>[0, 1]\<close>
  after it.
\<close>

lemma liveBands_unit_interval:
  assumes "0 \<le> smoothing cfg" "smoothing cfg \<le> 1" "\<forall>g \<in> set (bandGains cfg). 0 \<le> g"
  shows "\<forall>x \<in> set sl. 0 \<le> x \<and> x \<le> 1 \<Longrightarrow>
         liveBands cfg sr fd js (levels, sl) = Some (levels', sl') \<Longrightarrow>
         \<forall>x \<in> set sl'. 0 \<le> x \<and> x \<le> 1"
proof (induction js arbitrary: levels sl)
  case Nil
  then show ?case by simp
next
  case (Cons i js)
  from Cons.prems(2) obtain level where
    bl: "bandLevel cfg sr fd i = Some level" and i: "i < length sl"
    and rest: "liveBands cfg sr fd js (levels[i := smooth cfg (sl ! i) level],
                 sl[i := smooth cfg (sl ! i) level]) = Some (levels', sl')"
    by (auto simp: Let_def split: option.splits if_splits)
  have "i < length (bandGains cfg)" using bl by (auto simp: bandLevel_def split: if_splits)
  then have "0 \<le> bandGains cfg ! i" using assms(3) by simp
  from bandLevel_range[OF this bl] have l: "0 \<le> level" "level \<le> 1" by simp_all
  have p: "0 \<le> sl ! i" "sl ! i \<le> 1" using Cons.prems(1) i by simp_all
  have s: "0 \<le> smooth cfg (sl ! i) level \<and> smooth cfg (sl ! i) level \<le> 1"
    using smooth_range[OF assms(1,2) p l] .
  have "\<forall>x \<in> set (sl[i := smooth cfg (sl ! i) level]). 0 \<le> x \<and> x \<le> 1"
    using Cons.prems(1) s set_update_subset_insert[of sl i "smooth cfg (sl ! i) level"] by auto
  from Cons.IH[OF this rest] show ?case .
qed

lemma live_frame_keeps_unit_interval:
  assumes "0 \<le> smoothing cfg" "smoothing cfg \<le> 1" "\<forall>g \<in> set (bandGains cfg). 0 \<le> g"
    and "audioMode st \<noteq> Demo" "analyser st" "frequencyData st \<noteq> None"
    and "\<forall>x \<in> set (smoothedLevels st). 0 \<le> x \<and> x \<le> 1"
    and "getEQLevels cfg t r m st = Some (levels, st')"
  shows "\<forall>x \<in> set (smoothedLevels st'). 0 \<le> x \<and> x \<le> 1"
proof -
  have "\<exists>fd sr. liveBands cfg sr fd [0..<eqBarCount cfg]
       (replicate (eqBarCount cfg) 0, smoothedLevels st) = Some (levels, smoothedLevels st')"
    using assms(4,5,6,8)
    by (fastforce simp: getEQLevels_def Let_def split: option.splits)
  then show ?thesis using liveBands_unit_interval[OF assms(1,2,3,7)] by blast
qed

text \<open>
  With the band table of \<^verbatim>\<open>CONFIG\<close> and a positive sample rate, a live frame over
  well-sized smoothed levels returns its levels: no band runs into a value that is not
  a number.
\<close>

lemma liveBands_Some:
  "\<forall>i \<in> set js. i < length sl \<and> bandLevel cfg sr fd i \<noteq> None \<Longrightarrow>
   \<exists>res. liveBands cfg sr fd js (levels, sl) = Some res"
  by (induction js arbitrary: levels sl) (auto simp: Let_def)

lemma live_frame_returns:
  assumes "audioMode st \<noteq> Demo" "analyser st" "frequencyData st = Some fd0"
    "audioContext st = Some ctx" "0 < sampleRate ctx"
    "length (smoothedLevels st) = eqBarCount CONFIG"
  shows "\<exists>levels st'. getEQLevels CONFIG t r m st = Some (levels, st')"
proof -
  let ?fd = "getByteFrequencyData m fd0"
  have "\<forall>i \<in> set [0..<eqBarCount CONFIG].
          i < length (smoothedLevels st) \<and> bandLevel CONFIG (sampleRate ctx) ?fd i \<noteq> None"
  proof
    fix i assume "i \<in> set [0..<eqBarCount CONFIG]"
    then have i: "i < 16" by (simp add: CONFIG_def)
    then have nn: "0 \<le> frequencyBands CONFIG ! i" by (simp add: CONFIG_bands_nonneg)
    have len: "i + 1 < length (frequencyBands CONFIG)" "i < length (bandGains CONFIG)"
      using i by (simp_all add: CONFIG_def)
    show "i < length (smoothedLevels st) \<and> bandLevel CONFIG (sampleRate ctx) ?fd i \<noteq> None"
      using bandLevel_eq[OF nn assms(5) len, of ?fd] i assms(6) by (simp add: CONFIG_def)
  qed
  from liveBands_Some[OF this]
  obtain res where "liveBands CONFIG (sampleRate ctx) ?fd [0..<eqBarCount CONFIG]
      (replicate (eqBarCount CONFIG) 0, smoothedLevels st) = Some res" by blast
  then show ?thesis using assms(1-4)
    by (cases res) (simp add: getEQLevels_def)
qed

subsection \<open>Two bands under uniform magnitudes\<close>

lemma replicate_sum:
  "\<forall>bin \<in> set bins. 0 \<le> bin \<and> bin < int B \<Longrightarrow>
   sum_list (map (\<lambda>bin. unat (replicate B (128 :: 8 word) ! nat bin)) bins) = 128 * length bins"
  by (induction bins) auto

lemma twoBands_level:
  assumes "1 \<le> B" "i < 2"
  shows "bandLevel twoBands 8000 (replicate B 128) i =
         Some (min 1 (128 / 255 * bandGains twoBands ! i))"
proof -
  let ?bins = "bandBins twoBands 8000 B i"
  have nn: "0 \<le> frequencyBands twoBands ! i" using assms(2)
    by (cases i) (auto simp: twoBands_def less_Suc_eq)
  have len: "i + 1 < length (frequencyBands twoBands)" "i < length (bandGains twoBands)"
    using assms(2) by (simp_all add: twoBands_def)
  have r: "\<forall>bin \<in> set ?bins. 0 \<le> bin \<and> bin < int B"
    using bandBins_range[OF nn, of 8000 _ B] by fastforce
  have lo: "lowBin twoBands 8000 B i \<le> highBin twoBands 8000 B i"
  proof -
    have "i = 0 \<or> i = 1" using assms(2) by auto
    then show ?thesis
    proof
      assume "i = 0"
      then show ?thesis using assms(1) by (simp add: lowBin_def highBin_def twoBands_def)
    next
      assume i: "i = 1"
      have a: "\<lfloor>real B / 4\<rfloor> \<le> \<lceil>real B / 2\<rceil>" by linarith
      have b: "\<lfloor>real B / 4\<rfloor> \<le> int B - 1" using assms(1) by linarith
      show ?thesis using a b i by (simp add: lowBin_def highBin_def twoBands_def)
    qed
  qed
  then have ne: "?bins \<noteq> []" by (simp add: bandBins_def)
  then have pos: "0 < length ?bins" by simp
  have "bandLevel twoBands 8000 (replicate B 128) i =
     Some (min 1 (real (128 * length ?bins) / real (length ?bins) / 255 * bandGains twoBands ! i))"
    using bandLevel_eq[OF nn _ len, of 8000 "replicate B 128"] ne replicate_sum[OF r] by simp
  moreover have "real (128 * length ?bins) / real (length ?bins) = 128" using pos by simp
  ultimately show ?thesis by simp
qed

text \<open>
  C7. With the band table \<open>[(0, 1000, 1.0), (1000, 2000, 2.0)]\<close>, the sample rate 8000
  and the magnitude 128 in every one of \<open>B \<ge> 1\<close> bins, the level of band 0 before
  smoothing is \<open>128 / 255\<close>, within a thousandth of 0.502, and the level of band 1 is 1,
  clamped by the gain; and whatever the magnitudes, no level of this band table is
  below 0 or above 1.
\<close>

theorem two_bands_uniform_128:
  assumes "1 \<le> B"
  shows "bandLevel twoBands 8000 (replicate B 128) 0 = Some (128 / 255) \<and>
         \<bar>128 / 255 - 502 / 1000\<bar> < (1 / 1000 :: real) \<and>
         bandLevel twoBands 8000 (replicate B 128) 1 = Some 1 \<and>
         (\<forall>sr fd i level. bandLevel twoBands sr fd i = Some level \<longrightarrow> 0 \<le> level \<and> level \<le> 1)"
proof -
  have 0: "bandLevel twoBands 8000 (replicate B 128) 0 = Some (128 / 255)"
    using twoBands_level[OF assms, of 0] by (simp add: twoBands_def)
  have 1: "bandLevel twoBands 8000 (replicate B 128) 1 = Some 1"
    using twoBands_level[OF assms, of 1] by (simp add: twoBands_def)
  have g: "0 \<le> bandGains twoBands ! i" if "i < 2" for i
    using that by (cases i) (auto simp: twoBands_def less_Suc_eq)
  have 2: "0 \<le> level \<and> level \<le> 1" if "bandLevel twoBands sr fd i = Some level" for sr fd i level
  proof -
    have "i < 2" using that by (auto simp: bandLevel_def twoBands_def split: if_splits)
    from bandLevel_range[OF g[OF this] that] show ?thesis .
  qed
  show ?thesis using 0 1 2 by simp
qed

text \<open>The theorem at 256 bins, the bin count of \<^verbatim>\<open>fftSize = 512\<close>.\<close>

theorem two_bands_uniform_128_witness:
  "(1 :: nat) \<le> 256 \<and> bandLevel twoBands 8000 (replicate 256 128) 0 = Some (128 / 255) \<and>
   bandLevel twoBands 8000 (replicate 256 128) 1 = Some 1 \<and>
   0 \<le> (1 :: real) \<and> (1 :: real) \<le> 1"
  using two_bands_uniform_128 [of 256] by simp

subsection \<open>The bar loop\<close>

lemma trackPeak_ge: "level \<le> fst (trackPeak cfg timestamp level ph)"
  by (cases ph) (simp add: trackPeak_def)

lemma applyTarget_fst: "fst (applyTarget i j tgt seg) = tgt"
  by (cases seg; cases tgt) (auto simp: applyTarget_def Let_def)

lemma applyTarget_same: "applyTarget i j tgt tgt = (tgt, [])"
  by (simp add: applyTarget_def)

lemma segmentLoop_length:
  "length (fst (segmentLoop i lc ps js (bar, ops))) = length bar"
  by (induction js arbitrary: bar ops) (auto simp: split_def Let_def)

lemma segmentLoop_nth:
  "distinct js \<Longrightarrow> k < length bar \<Longrightarrow>
   fst (segmentLoop i lc ps js (bar, ops)) ! k =
     (if k \<in> set js then segmentTarget k lc ps else bar ! k)"
proof (induction js arbitrary: bar ops)
  case Nil
  then show ?case by simp
next
  case (Cons j js)
  have "fst (segmentLoop i lc ps (j # js) (bar, ops)) ! k =
        fst (segmentLoop i lc ps js (bar[j := segmentTarget j lc ps],
               ops @ snd (updateSegment i j lc ps (bar ! j)))) ! k"
    by (simp add: split_def updateSegment_def applyTarget_fst)
  also have "\<dots> = (if k \<in> set js then segmentTarget k lc ps
                    else bar[j := segmentTarget j lc ps] ! k)"
    using Cons.IH[of "bar[j := segmentTarget j lc ps]"] Cons.prems by simp
  finally show ?case using Cons.prems by (auto simp: nth_list_update)
qed

lemma segmentLoop_targets:
  assumes "length bar = n"
  shows "fst (segmentLoop i lc ps [0..<n] (bar, ops)) = map (\<lambda>j. segmentTarget j lc ps) [0..<n]"
  by (rule nth_equalityI) (simp_all add: segmentLoop_length segmentLoop_nth assms)

lemma segmentLoop_unchanged:
  "\<forall>j \<in> set js. j < length bar \<and> bar ! j = segmentTarget j lc ps \<Longrightarrow>
   segmentLoop i lc ps js (bar, ops) = (bar, ops)"
proof (induction js arbitrary: bar ops)
  case Nil
  then show ?case by simp
next
  case (Cons j js)
  then have j: "bar ! j = segmentTarget j lc ps" by simp
  have "bar[j := segmentTarget j lc ps] = bar" using j by (metis list_update_id)
  then show ?case using Cons j by (simp add: updateSegment_def applyTarget_same)
qed


lemma updateBar_eq:
  "updateBar cfg t levels i (st, ops) =
     (st\<lparr>peakLevels := (peakLevels st)[i := fst (trackPeak cfg t (levels ! i)
                            (peakLevels st ! i, peakHoldTimes st ! i))],
          peakHoldTimes := (peakHoldTimes st)[i := snd (trackPeak cfg t (levels ! i)
                            (peakLevels st ! i, peakHoldTimes st ! i))],
          segments := (segments st)[i := fst (segmentLoop i (litCount cfg (levels ! i))
             (peakSegment cfg ((peakLevels st)[i := fst (trackPeak cfg t (levels ! i)
                            (peakLevels st ! i, peakHoldTimes st ! i))] ! i))
             [0..<eqSegmentCount cfg] (segments st ! i, []))]\<rparr>,
      ops @ snd (segmentLoop i (litCount cfg (levels ! i))
             (peakSegment cfg ((peakLevels st)[i := fst (trackPeak cfg t (levels ! i)
                            (peakLevels st ! i, peakHoldTimes st ! i))] ! i))
             [0..<eqSegmentCount cfg] (segments st ! i, [])))"
  by (simp add: updateBar_def Let_def split_def)

lemma fold_updateBar_lengths:
  "length (peakLevels (fst (fold (updateBar cfg t levels) is (st, ops)))) = length (peakLevels st) \<and>
   length (peakHoldTimes (fst (fold (updateBar cfg t levels) is (st, ops)))) = length (peakHoldTimes st) \<and>
   length (segments (fst (fold (updateBar cfg t levels) is (st, ops)))) = length (segments st) \<and>
   smoothedLevels (fst (fold (updateBar cfg t levels) is (st, ops))) = smoothedLevels st"
proof (induction "is" arbitrary: st ops)
  case Nil
  then show ?case by simp
next
  case (Cons i "is")
  show ?case by (simp add: updateBar_eq Cons.IH)
qed

lemma fold_updateBar_peak:
  assumes "distinct is" "k < length (peakLevels st)" "length (peakHoldTimes st) = length (peakLevels st)"
  shows "(peakLevels (fst (fold (updateBar cfg t levels) is (st, ops))) ! k,
          peakHoldTimes (fst (fold (updateBar cfg t levels) is (st, ops))) ! k) =
         (if k \<in> set is
          then trackPeak cfg t (levels ! k) (peakLevels st ! k, peakHoldTimes st ! k)
          else (peakLevels st ! k, peakHoldTimes st ! k))"
  using assms
proof (induction "is" arbitrary: st ops)
  case Nil
  then show ?case by simp
next
  case (Cons i "is")
  define st1 where "st1 = fst (updateBar cfg t levels i (st, ops))"
  define ops1 where "ops1 = snd (updateBar cfg t levels i (st, ops))"
  have f: "updateBar cfg t levels i (st, ops) = (st1, ops1)"
    by (simp add: st1_def ops1_def)
  have pl: "peakLevels st1 = (peakLevels st)[i := fst (trackPeak cfg t (levels ! i)
                            (peakLevels st ! i, peakHoldTimes st ! i))]"
    and ph: "peakHoldTimes st1 = (peakHoldTimes st)[i := snd (trackPeak cfg t (levels ! i)
                            (peakLevels st ! i, peakHoldTimes st ! i))]"
    by (simp_all add: st1_def updateBar_eq)
  have IH: "(peakLevels (fst (fold (updateBar cfg t levels) is (st1, ops1))) ! k,
          peakHoldTimes (fst (fold (updateBar cfg t levels) is (st1, ops1))) ! k) =
         (if k \<in> set is
          then trackPeak cfg t (levels ! k) (peakLevels st1 ! k, peakHoldTimes st1 ! k)
          else (peakLevels st1 ! k, peakHoldTimes st1 ! k))"
    using Cons.prems by (intro Cons.IH) (simp_all add: pl ph)
  show ?case
  proof (cases "k = i")
    case True
    then have "k \<notin> set is" using Cons.prems(1) by simp
    then show ?thesis using True Cons.prems(2,3) IH by (simp add: f pl ph)
  next
    case False
    then show ?thesis by (simp add: f IH pl ph)
  qed
qed

lemma fold_updateBar_segments:
  assumes "distinct is" "k < length (segments st)" "length (peakLevels st) = length (segments st)"
    "length (peakHoldTimes st) = length (segments st)" "length (segments st ! k) = eqSegmentCount cfg"
  shows "segments (fst (fold (updateBar cfg t levels) is (st, ops))) ! k =
         (if k \<in> set is
          then barTargets cfg t (levels ! k) (peakLevels st ! k, peakHoldTimes st ! k)
          else segments st ! k)"
  using assms
proof (induction "is" arbitrary: st ops)
  case Nil
  then show ?case by simp
next
  case (Cons i "is")
  define st1 where "st1 = fst (updateBar cfg t levels i (st, ops))"
  define ops1 where "ops1 = snd (updateBar cfg t levels i (st, ops))"
  let ?p = "fst (trackPeak cfg t (levels ! i) (peakLevels st ! i, peakHoldTimes st ! i))"
  have f: "updateBar cfg t levels i (st, ops) = (st1, ops1)"
    by (simp add: st1_def ops1_def)
  have pl: "peakLevels st1 = (peakLevels st)[i := ?p]"
    and ph: "peakHoldTimes st1 = (peakHoldTimes st)[i := snd (trackPeak cfg t (levels ! i)
                            (peakLevels st ! i, peakHoldTimes st ! i))]"
    and sg: "segments st1 = (segments st)[i := fst (segmentLoop i (litCount cfg (levels ! i))
             (peakSegment cfg ((peakLevels st)[i := ?p] ! i))
             [0..<eqSegmentCount cfg] (segments st ! i, []))]"
    by (simp_all add: st1_def updateBar_eq)
  show ?case
  proof (cases "k = i")
    case True
    then have notin: "k \<notin> set is" using Cons.prems(1) by simp
    have len: "length (segments st1 ! k) = eqSegmentCount cfg"
      using True Cons.prems by (simp add: sg segmentLoop_length)
    have "segments (fst (fold (updateBar cfg t levels) is (st1, ops1))) ! k = segments st1 ! k"
      using Cons.prems notin len Cons.IH[of st1 ops1] by (simp add: pl ph sg)
    also have "\<dots> = barTargets cfg t (levels ! k) (peakLevels st ! k, peakHoldTimes st ! k)"
      using True Cons.prems by (simp add: sg segmentLoop_targets barTargets_def)
    finally show ?thesis using True by (simp add: f)
  next
    case False
    then have len: "length (segments st1 ! k) = eqSegmentCount cfg"
      using Cons.prems by (simp add: sg)
    have "segments (fst (fold (updateBar cfg t levels) is (st1, ops1))) ! k =
         (if k \<in> set is
          then barTargets cfg t (levels ! k) (peakLevels st1 ! k, peakHoldTimes st1 ! k)
          else segments st1 ! k)"
      using Cons.prems len by (intro Cons.IH) (simp_all add: pl ph sg)
    then show ?thesis using False by (simp add: f pl ph sg)
  qed
qed

lemma length_barTargets: "length (barTargets cfg t level ph) = eqSegmentCount cfg"
  by (simp add: barTargets_def)

lemma fold_updateBar_unchanged:
  assumes "distinct is"
    "\<forall>i \<in> set is. i < length (segments st) \<and>
       segments st ! i = barTargets cfg t (levels ! i) (peakLevels st ! i, peakHoldTimes st ! i)"
    "length (peakLevels st) = length (segments st)"
    "length (peakHoldTimes st) = length (segments st)"
  shows "snd (fold (updateBar cfg t levels) is (st, ops)) = ops \<and>
         segments (fst (fold (updateBar cfg t levels) is (st, ops))) = segments st"
  using assms
proof (induction "is" arbitrary: st ops)
  case Nil
  then show ?case by simp
next
  case (Cons i "is")
  let ?p = "fst (trackPeak cfg t (levels ! i) (peakLevels st ! i, peakHoldTimes st ! i))"
  let ?h = "snd (trackPeak cfg t (levels ! i) (peakLevels st ! i, peakHoldTimes st ! i))"
  let ?st1 = "st\<lparr>peakLevels := (peakLevels st)[i := ?p],
                    peakHoldTimes := (peakHoldTimes st)[i := ?h]\<rparr>"
  have i: "i < length (segments st)"
    and tg: "segments st ! i = barTargets cfg t (levels ! i) (peakLevels st ! i, peakHoldTimes st ! i)"
    using Cons.prems(2) by auto
  have nth: "(peakLevels st)[i := ?p] ! i = ?p" using i Cons.prems(3) by simp
  have "\<forall>j \<in> set [0..<eqSegmentCount cfg]. j < length (segments st ! i) \<and>
      segments st ! i ! j = segmentTarget j (litCount cfg (levels ! i)) (peakSegment cfg ?p)"
    unfolding tg by (simp add: barTargets_def)
  then have loop: "segmentLoop i (litCount cfg (levels ! i)) (peakSegment cfg ?p)
      [0..<eqSegmentCount cfg] (segments st ! i, []) = (segments st ! i, [])"
    by (rule segmentLoop_unchanged)
  have step: "updateBar cfg t levels i (st, ops) = (?st1, ops)"
    by (simp add: updateBar_eq nth loop)
  have rest: "\<forall>k \<in> set is. k < length (segments ?st1) \<and>
       segments ?st1 ! k = barTargets cfg t (levels ! k) (peakLevels ?st1 ! k, peakHoldTimes ?st1 ! k)"
  proof
    fix k assume k: "k \<in> set is"
    then have "i \<noteq> k" using Cons.prems(1) by auto
    then show "k < length (segments ?st1) \<and>
       segments ?st1 ! k = barTargets cfg t (levels ! k) (peakLevels ?st1 ! k, peakHoldTimes ?st1 ! k)"
      using Cons.prems(2) k by simp
  qed
  have "snd (fold (updateBar cfg t levels) is (?st1, ops)) = ops \<and>
        segments (fst (fold (updateBar cfg t levels) is (?st1, ops))) = segments ?st1"
    using Cons.prems by (intro Cons.IH rest) simp_all
  then show ?case by (simp add: step)
qed


lemma liveBands_lengths:
  "liveBands cfg sr fd js (levels, sl) = Some (levels', sl') \<Longrightarrow>
   length levels' = length levels \<and> length sl' = length sl"
  by (induction js arbitrary: levels sl) (auto simp: Let_def split: option.splits if_splits)

lemma demoBands_lengths:
  "demoBands cfg t r js (levels, sl) = Some (levels', sl') \<Longrightarrow>
   length levels' = length levels \<and> length sl' = length sl"
  by (induction js arbitrary: levels sl) (auto simp: Let_def split: option.splits if_splits)

lemma getEQLevels_frame:
  assumes "getEQLevels cfg t r m st = Some (levels, st')"
  shows "length levels = eqBarCount cfg \<and> peakLevels st' = peakLevels st \<and>
         peakHoldTimes st' = peakHoldTimes st \<and> segments st' = segments st \<and>
         length (smoothedLevels st') = length (smoothedLevels st) \<and>
         audioMode st' = audioMode st \<and> lastEqUpdate st' = lastEqUpdate st"
  using assms
  by (auto simp: getEQLevels_def Let_def split: option.splits if_splits
      dest!: liveBands_lengths demoBands_lengths)

lemma barLoop_peak:
  assumes "wellFormed cfg st" "i < eqBarCount cfg"
  shows "(peakLevels (fst (barLoop cfg t levels st)) ! i,
          peakHoldTimes (fst (barLoop cfg t levels st)) ! i) =
         trackPeak cfg t (levels ! i) (peakLevels st ! i, peakHoldTimes st ! i)"
  using assms fold_updateBar_peak[of "[0..<eqBarCount cfg]" i st cfg t levels "[]"]
  by (simp add: barLoop_def wellFormed_def)

lemma barLoop_segments:
  assumes "wellFormed cfg st"
  shows "segments (fst (barLoop cfg t levels st)) = frameTargets cfg t levels st"
proof (rule nth_equalityI)
  show "length (segments (fst (barLoop cfg t levels st))) = length (frameTargets cfg t levels st)"
    using assms by (simp add: barLoop_def fold_updateBar_lengths frameTargets_def wellFormed_def)
next
  fix k assume "k < length (segments (fst (barLoop cfg t levels st)))"
  then have k: "k < eqBarCount cfg"
    using assms by (simp add: barLoop_def fold_updateBar_lengths wellFormed_def)
  then have "length (segments st ! k) = eqSegmentCount cfg"
    using assms by (simp add: wellFormed_def list_all_length)
  then show "segments (fst (barLoop cfg t levels st)) ! k = frameTargets cfg t levels st ! k"
    using assms k fold_updateBar_segments[of "[0..<eqBarCount cfg]" k st cfg t levels "[]"]
    by (simp add: barLoop_def frameTargets_def wellFormed_def)
qed

lemma barLoop_wellFormed:
  assumes "wellFormed cfg st"
  shows "wellFormed cfg (fst (barLoop cfg t levels st))"
proof -
  have "segments (fst (barLoop cfg t levels st)) = frameTargets cfg t levels st"
    using assms by (rule barLoop_segments)
  then have "list_all (\<lambda>b. length b = eqSegmentCount cfg) (segments (fst (barLoop cfg t levels st)))"
    by (simp add: frameTargets_def list_all_iff length_barTargets)
  then show ?thesis using assms
    by (simp add: wellFormed_def barLoop_def fold_updateBar_lengths)
qed

lemma barLoop_unchanged:
  assumes "length (peakLevels st) = eqBarCount cfg" "length (peakHoldTimes st) = eqBarCount cfg"
    "length (segments st) = eqBarCount cfg"
    "frameTargets cfg t levels st = segments st"
  shows "snd (barLoop cfg t levels st) = [] \<and>
         segments (fst (barLoop cfg t levels st)) = segments st"
proof -
  have "\<forall>i \<in> set [0..<eqBarCount cfg]. i < length (segments st) \<and>
       segments st ! i = barTargets cfg t (levels ! i) (peakLevels st ! i, peakHoldTimes st ! i)"
  proof
    fix i assume "i \<in> set [0..<eqBarCount cfg]"
    then have i: "i < eqBarCount cfg" by simp
    have "segments st ! i = frameTargets cfg t levels st ! i" using assms(4) by simp
    then show "i < length (segments st) \<and>
       segments st ! i = barTargets cfg t (levels ! i) (peakLevels st ! i, peakHoldTimes st ! i)"
      using i assms(3) by (simp add: frameTargets_def)
  qed
  from fold_updateBar_unchanged[OF _ this, of "[]"] assms(1,2,3)
  show ?thesis by (simp add: barLoop_def)
qed


subsection \<open>The peak is never below the level\<close>

text \<open>
  C5. In a frame that is not skipped, for every band \<open>i\<close>, the peak of the band after
  the frame is at least the level that the frame has computed for it, in each of the
  three cases of the tracker (rise, decay, hold): there is no exception for the decay.
  In particular, when the level is below the peak and the hold time has expired, the
  new peak is \<open>max level (peak - peakDecay)\<close>.
\<close>

theorem peak_at_least_level:
  assumes wf: "wellFormed cfg st"
    and nt: "\<not> timestamp - lastEqUpdate st < eqUpdateInterval cfg"
    and lv: "getEQLevels cfg timestamp random magnitudes (st\<lparr>lastEqUpdate := timestamp\<rparr>)
               = Some (levels, st1)"
    and i: "i < eqBarCount cfg"
  shows "\<exists>st' ops. updateEQBars cfg timestamp random magnitudes frameId st = Some (st', ops) \<and>
           levels ! i \<le> peakLevels st' ! i \<and>
           (levels ! i < peakLevels st ! i \<and> timestamp - peakHoldTimes st ! i > peakHoldTime cfg
              \<longrightarrow> peakLevels st' ! i = max (levels ! i) (peakLevels st ! i - peakDecay cfg))"
proof -
  obtain st2 ops where bl: "barLoop cfg timestamp levels st1 = (st2, ops)"
    by (cases "barLoop cfg timestamp levels st1")
  have same: "peakLevels st1 = peakLevels st" "peakHoldTimes st1 = peakHoldTimes st"
    using getEQLevels_frame[OF lv] by simp_all
  have wf1: "wellFormed cfg st1"
    using getEQLevels_frame[OF lv] wf by (simp add: wellFormed_def)
  have tp: "(peakLevels st2 ! i, peakHoldTimes st2 ! i) =
        trackPeak cfg timestamp (levels ! i) (peakLevels st ! i, peakHoldTimes st ! i)"
    using barLoop_peak[OF wf1 i, of timestamp levels] by (simp add: bl same)
  then have p: "peakLevels st2 ! i =
        fst (trackPeak cfg timestamp (levels ! i) (peakLevels st ! i, peakHoldTimes st ! i))"
    by (metis fst_conv)
  have 1: "updateEQBars cfg timestamp random magnitudes frameId st =
        Some (st2\<lparr>eqAnimationId := Some frameId\<rparr>, ops)"
    using nt by (simp add: updateEQBars_def lv bl)
  have 2: "levels ! i \<le> peakLevels st2 ! i" unfolding p by (rule trackPeak_ge)
  have 3: "levels ! i < peakLevels st ! i \<and> timestamp - peakHoldTimes st ! i > peakHoldTime cfg
              \<longrightarrow> peakLevels st2 ! i = max (levels ! i) (peakLevels st ! i - peakDecay cfg)"
    unfolding p by (simp add: trackPeak_def)
  show ?thesis using 1 2 3 by simp
qed

lemma first_frame_levels:
  "getEQLevels oneBar 50 noNoise [] ((initialState oneBar)\<lparr>lastEqUpdate := 50\<rparr>) =
     Some ([5 / 100], (initialState oneBar)\<lparr>lastEqUpdate := 50\<rparr>)"
  by (simp add: getEQLevels_def initialState_def buildEQBars_def oneBar_def CONFIG_def
      smooth_def Let_def)


text \<open>The theorem at the first frame of the one-bar display, at 50 ms.\<close>

theorem peak_at_least_level_witness:
  "wellFormed oneBar (initialState oneBar) \<and>
   \<not> 50 - lastEqUpdate (initialState oneBar) < eqUpdateInterval oneBar \<and>
   getEQLevels oneBar 50 noNoise [] ((initialState oneBar)\<lparr>lastEqUpdate := 50\<rparr>) =
     Some ([5 / 100], (initialState oneBar)\<lparr>lastEqUpdate := 50\<rparr>) \<and>
   (0 :: nat) < eqBarCount oneBar \<and>
   (\<exists>st' ops. updateEQBars oneBar 50 noNoise [] 1 (initialState oneBar) = Some (st', ops) \<and>
      [5 / 100] ! 0 \<le> peakLevels st' ! 0)"
proof -
  have h: "wellFormed oneBar (initialState oneBar)"
    "\<not> 50 - lastEqUpdate (initialState oneBar) < eqUpdateInterval oneBar"
    "(0 :: nat) < eqBarCount oneBar"
    by (simp_all add: wellFormed_def initialState_def buildEQBars_def oneBar_def CONFIG_def)
  from peak_at_least_level [OF h(1) h(2) first_frame_levels h(3), of 1]
  show ?thesis using h first_frame_levels by blast
qed

subsection \<open>Identical frames change nothing\<close>

text \<open>
  C8. If a call of \<^verbatim>\<open>updateEQBars\<close> and the next one compute the same tuple
  \<open>(lit, color, peak, isPeakHold)\<close> for every segment of every bar, the second call
  writes no class and leaves the cached segment states as they are.
\<close>

theorem identical_frames_empty_change_set:
  assumes wf: "wellFormed cfg st0"
    and t1: "updateEQBars cfg t1 r1 m1 f1 st0 = Some (st1, ops1)"
    and T1: "tickTargets cfg t1 r1 m1 st0 = Some T"
    and T2: "tickTargets cfg t2 r2 m2 st1 = Some T"
  shows "\<exists>st2. updateEQBars cfg t2 r2 m2 f2 st1 = Some (st2, []) \<and> segments st2 = segments st1"
proof -
  have nt1: "\<not> t1 - lastEqUpdate st0 < eqUpdateInterval cfg"
    using T1 by (auto simp: tickTargets_def split: if_splits)
  then obtain levels1 sta where
    g1: "getEQLevels cfg t1 r1 m1 (st0\<lparr>lastEqUpdate := t1\<rparr>) = Some (levels1, sta)"
    and f1: "frameTargets cfg t1 levels1 sta = T"
    using T1 by (auto simp: tickTargets_def split: if_splits option.splits)
  have wfa: "wellFormed cfg sta"
    using getEQLevels_frame[OF g1] wf by (simp add: wellFormed_def)
  have st1: "st1 = (fst (barLoop cfg t1 levels1 sta))\<lparr>eqAnimationId := Some f1\<rparr>"
    using t1 nt1 by (simp add: updateEQBars_def g1 split_def)
  have seg1: "segments st1 = T"
    using barLoop_segments[OF wfa, of t1 levels1] f1 by (simp add: st1)
  have wf1: "wellFormed cfg st1"
    using barLoop_wellFormed[OF wfa, of t1 levels1] by (simp add: st1 wellFormed_def)
  have nt2: "\<not> t2 - lastEqUpdate st1 < eqUpdateInterval cfg"
    using T2 by (auto simp: tickTargets_def split: if_splits)
  then obtain levels2 stb where
    g2: "getEQLevels cfg t2 r2 m2 (st1\<lparr>lastEqUpdate := t2\<rparr>) = Some (levels2, stb)"
    and f2: "frameTargets cfg t2 levels2 stb = T"
    using T2 by (auto simp: tickTargets_def split: if_splits option.splits)
  have b: "length (peakLevels stb) = eqBarCount cfg" "length (peakHoldTimes stb) = eqBarCount cfg"
    "length (segments stb) = eqBarCount cfg" "segments stb = segments st1"
    using getEQLevels_frame[OF g2] wf1 by (simp_all add: wellFormed_def)
  have "frameTargets cfg t2 levels2 stb = segments stb" using f2 seg1 b(4) by simp
  from barLoop_unchanged[OF b(1,2,3) this]
  have u: "snd (barLoop cfg t2 levels2 stb) = []"
    and s: "segments (fst (barLoop cfg t2 levels2 stb)) = segments stb" by simp_all
  have "updateEQBars cfg t2 r2 m2 f2 st1 =
        Some ((fst (barLoop cfg t2 levels2 stb))\<lparr>eqAnimationId := Some f2\<rparr>, [])"
    using nt2 u by (simp add: updateEQBars_def g2 split_def)
  then show ?thesis using s b(4) by simp
qed

lemma upt_0_2: "[0..<2] = [0, Suc 0]"
  by (simp add: numeral_2_eq_2)

lemma first_frame:
  "updateEQBars oneBar 50 noNoise [] 1 (initialState oneBar) =
     Some (afterFirstFrame, [Add 0 0 ''eq-segment--blue'', Toggle 0 0 ''eq-segment--peak-hold'' True])"
  by (simp add: afterFirstFrame_def updateEQBars_def first_frame_levels)
    (simp add: initialState_def buildEQBars_def oneBar_def CONFIG_def barLoop_def updateBar_def
      trackPeak_def litCount_def peakSegment_def updateSegment_def applyTarget_def
      segmentTarget_def targetColor_def newSegment_def colourName_def Let_def upt_0_2
      numeral_2_eq_2)


lemma afterFirstFrame_eq:
  "afterFirstFrame = (initialState oneBar)\<lparr>eqAnimationId := Some 1, lastEqUpdate := 50,
      peakLevels := [5 / 100], peakHoldTimes := [50], segments := peakMarkerOnly\<rparr>"
  by (simp add: afterFirstFrame_def updateEQBars_def first_frame_levels)
    (simp add: initialState_def buildEQBars_def oneBar_def CONFIG_def barLoop_def updateBar_def
      trackPeak_def litCount_def peakSegment_def updateSegment_def applyTarget_def
      segmentTarget_def targetColor_def newSegment_def colourName_def Let_def upt_0_2
      numeral_2_eq_2 peakMarkerOnly_def)

lemma first_targets:
  "tickTargets oneBar 50 noNoise [] (initialState oneBar) = Some peakMarkerOnly"
  by (simp add: tickTargets_def first_frame_levels)
    (simp add: initialState_def buildEQBars_def oneBar_def CONFIG_def frameTargets_def
      barTargets_def trackPeak_def litCount_def peakSegment_def segmentTarget_def
      targetColor_def newSegment_def Let_def upt_0_2 peakMarkerOnly_def)

lemma second_targets:
  "tickTargets oneBar 100 noNoise [] afterFirstFrame = Some peakMarkerOnly"
  by (simp add: tickTargets_def afterFirstFrame_eq getEQLevels_def initialState_def
      buildEQBars_def oneBar_def CONFIG_def smooth_def frameTargets_def
      barTargets_def trackPeak_def litCount_def peakSegment_def segmentTarget_def
      targetColor_def newSegment_def Let_def upt_0_2 peakMarkerOnly_def)

text \<open>
  The theorem at two frames of the one-bar display, at 50 ms and at 100 ms: the first
  one shows the peak marker, the second one writes nothing.
\<close>

theorem identical_frames_empty_change_set_witness:
  "wellFormed oneBar (initialState oneBar) \<and>
   updateEQBars oneBar 50 noNoise [] 1 (initialState oneBar) =
     Some (afterFirstFrame,
           [Add 0 0 ''eq-segment--blue'', Toggle 0 0 ''eq-segment--peak-hold'' True]) \<and>
   tickTargets oneBar 50 noNoise [] (initialState oneBar) = Some peakMarkerOnly \<and>
   tickTargets oneBar 100 noNoise [] afterFirstFrame = Some peakMarkerOnly \<and>
   (\<exists>st2. updateEQBars oneBar 100 noNoise [] 2 afterFirstFrame = Some (st2, []) \<and>
      segments st2 = segments afterFirstFrame)"
proof -
  have wf: "wellFormed oneBar (initialState oneBar)"
    by (simp add: wellFormed_def initialState_def buildEQBars_def oneBar_def CONFIG_def)
  from identical_frames_empty_change_set [OF wf first_frame first_targets second_targets, of 2]
  show ?thesis using wf first_frame first_targets second_targets by blast
qed

subsection \<open>The peak after the hold time\<close>

lemma peakSegment_CONFIG: "peakSegment CONFIG (98 / 100) = 11" "peakSegment CONFIG 1 = 11"
  by (simp_all add: peakSegment_def CONFIG_def)

text \<open>
  The claim C1 reads: with 12 segments and the levels 0.0, 0.5, 1.0, 0.3 in four
  successive frames, the hold time being exceeded at the fourth, the peak is still 1.0
  there. It is not: with the frames at 0, 50, 100 and 700 ms, the fourth one comes more
  than \<^verbatim>\<open>peakHoldTime = 500\<close> after the rise to 1.0, and the tracker lets the peak fall.
\<close>

theorem peak_after_hold_is_not_one:
  "fst (trackPeaks CONFIG (0, 0) [(0, 0), (50, 1 / 2), (100, 1), (700, 3 / 10)]) \<noteq> 1"
  by (simp add: trackPeak_def CONFIG_def)

text \<open>
  C1, amended. With 12 segments and the levels 0.0, 0.5, 1.0, 0.3 in four successive
  frames, from the peak state of a new display: when the hold time is exceeded at the
  fourth frame, the peak there is \<open>1.0 - peakDecay = 0.98\<close>, one decay step below 1.0, and
  the peak segment is still 11; when it is not exceeded, the peak is still 1.0. The
  time of the last rise is that of the third frame in both cases.
\<close>

theorem peak_after_hold_decays_one_step:
  "eqSegmentCount CONFIG = 12 \<and>
   (t4 - t3 > peakHoldTime CONFIG \<longrightarrow>
      trackPeaks CONFIG (0, 0) [(t1, 0), (t2, 1 / 2), (t3, 1), (t4, 3 / 10)] = (98 / 100, t3) \<and>
      peakSegment CONFIG (98 / 100) = 11) \<and>
   (t4 - t3 \<le> peakHoldTime CONFIG \<longrightarrow>
      trackPeaks CONFIG (0, 0) [(t1, 0), (t2, 1 / 2), (t3, 1), (t4, 3 / 10)] = (1, t3) \<and>
      peakSegment CONFIG 1 = 11)"
  using peakSegment_CONFIG by (simp add: trackPeak_def CONFIG_def)

text \<open>The theorem with the fourth frame at 700 ms, and at 600 ms.\<close>

theorem peak_after_hold_decays_one_step_witness:
  "(700 :: real) - 100 > peakHoldTime CONFIG \<and>
   trackPeaks CONFIG (0, 0) [(0, 0), (50, 1 / 2), (100, 1), (700, 3 / 10)] = (98 / 100, 100) \<and>
   (600 :: real) - 100 \<le> peakHoldTime CONFIG \<and>
   trackPeaks CONFIG (0, 0) [(0, 0), (50, 1 / 2), (100, 1), (600, 3 / 10)] = (1, 100)"
proof -
  have h: "(700 :: real) - 100 > peakHoldTime CONFIG" "(600 :: real) - 100 \<le> peakHoldTime CONFIG"
    by (simp_all add: CONFIG_def)
  show ?thesis
    using h peak_after_hold_decays_one_step [of 700 100 0 50]
      peak_after_hold_decays_one_step [of 600 100 0 50]
    by blast
qed

subsection \<open>The colour of a segment\<close>

text \<open>
  The claim C2 reads: the colour of segment \<open>j\<close> depends on \<open>j\<close> alone, not on whether
  the segment is lit or carries the peak marker. It does: the lowest segment has no
  colour in a frame with no lit segment and the peak marker on segment 5, and it is
  blue in a frame with one lit segment.
\<close>

theorem colour_depends_on_lit_state:
  "color (segmentTarget 0 0 5) \<noteq> color (segmentTarget 0 1 5)"
  by (simp add: segmentTarget_def targetColor_def)

text \<open>
  C2, amended. A segment that is neither lit nor the peak marker has no colour. A
  segment \<open>j\<close> that is lit or is the peak marker has the colour of its index: red from
  10 on, amber for 8 and 9, blue below; so in any two frames that show segment \<open>j\<close> its
  colour is the same. The thresholds 10 and 8 are constants of the source.
\<close>

theorem colour_of_shown_segment:
  "color (segmentTarget j lc ps) =
     (if lit (segmentTarget j lc ps) \<or> isPeakHold (segmentTarget j lc ps)
      then Some (if 10 \<le> j then Red else if 8 \<le> j then Amber else Blue) else None) \<and>
   ((lit (segmentTarget j lc ps) \<or> isPeakHold (segmentTarget j lc ps)) \<and>
    (lit (segmentTarget j lc' ps') \<or> isPeakHold (segmentTarget j lc' ps'))
    \<longrightarrow> color (segmentTarget j lc ps) = color (segmentTarget j lc' ps'))"
  by (simp add: segmentTarget_def targetColor_def Let_def)

text \<open>
  The theorem at segment 9, lit in a frame with all twelve segments lit and peak marker
  in a frame with three lit segments: amber in both.
\<close>

theorem colour_of_shown_segment_witness:
  "lit (segmentTarget 9 12 11) \<and> isPeakHold (segmentTarget 9 3 9) \<and>
   color (segmentTarget 9 12 11) = Some Amber \<and> color (segmentTarget 9 3 9) = Some Amber"
proof -
  have h: "lit (segmentTarget 9 12 11)" "isPeakHold (segmentTarget 9 3 9)"
    by (simp_all add: segmentTarget_def)
  have "color (segmentTarget 9 12 11) = Some Amber"
    using colour_of_shown_segment [of 9 12 11 3 9] h by simp
  moreover have "color (segmentTarget 9 3 9) = Some Amber"
    using colour_of_shown_segment [of 9 3 9 12 11] h by simp
  ultimately show ?thesis using h by simp
qed

subsection \<open>The demo levels\<close>

lemma demoBands_Some:
  "\<forall>j \<in> set js. j < length sl \<Longrightarrow> \<exists>levels' sl'. demoBands cfg t r js (levels, sl) = Some (levels', sl')"
  by (induction js arbitrary: levels sl) (auto simp: Let_def)

lemma demoBands_nth:
  "distinct js \<Longrightarrow> demoBands cfg t r js (levels, sl) = Some (levels', sl') \<Longrightarrow>
   k < length levels \<Longrightarrow> k < length sl \<Longrightarrow>
   levels' ! k = (if k \<in> set js
                  then max (5 / 100) (min 1 (smooth cfg (sl ! k) (demoBase t k (r k))))
                  else levels ! k) \<and>
   sl' ! k = (if k \<in> set js then smooth cfg (sl ! k) (demoBase t k (r k)) else sl ! k)"
proof (induction js arbitrary: levels sl)
  case Nil
  then show ?case by simp
next
  case (Cons j js)
  let ?s = "smooth cfg (sl ! j) (demoBase t j (r j))"
  have j: "j < length sl" using Cons.prems(2) by (auto split: if_splits)
  have rest: "demoBands cfg t r js (levels[j := max (5 / 100) (min 1 ?s)], sl[j := ?s])
              = Some (levels', sl')"
    using Cons.prems(2) j by (simp add: Let_def)
  have IH: "levels' ! k = (if k \<in> set js
                  then max (5 / 100) (min 1 (smooth cfg (sl[j := ?s] ! k) (demoBase t k (r k))))
                  else levels[j := max (5 / 100) (min 1 ?s)] ! k) \<and>
   sl' ! k = (if k \<in> set js then smooth cfg (sl[j := ?s] ! k) (demoBase t k (r k))
              else sl[j := ?s] ! k)"
    using Cons.prems by (intro Cons.IH[OF _ rest]) simp_all
  show ?case
  proof (cases "k = j")
    case True
    then have "k \<notin> set js" using Cons.prems(1) by simp
    then show ?thesis using IH True Cons.prems(3,4) by simp
  next
    case False
    then show ?thesis using IH by simp
  qed
qed

lemma getEQLevels_demo:
  assumes "audioMode st = Demo" "length (smoothedLevels st) = eqBarCount cfg"
  shows "\<exists>levels sl'. getEQLevels cfg t r m st = Some (levels, st\<lparr>smoothedLevels := sl'\<rparr>) \<and>
           length levels = eqBarCount cfg \<and> length sl' = eqBarCount cfg \<and>
           (\<forall>k < eqBarCount cfg.
              levels ! k = max (5 / 100) (min 1 (smooth cfg (smoothedLevels st ! k) (demoBase t k (r k)))) \<and>
              sl' ! k = smooth cfg (smoothedLevels st ! k) (demoBase t k (r k)))"
proof -
  let ?n = "eqBarCount cfg"
  have "\<forall>j \<in> set [0..<?n]. j < length (smoothedLevels st)" using assms(2) by simp
  from demoBands_Some[OF this]
  obtain levels sl' where
    d: "demoBands cfg t r [0..<?n] (replicate ?n 0, smoothedLevels st) = Some (levels, sl')"
    by blast
  have g: "getEQLevels cfg t r m st = Some (levels, st\<lparr>smoothedLevels := sl'\<rparr>)"
    using assms(1) d by (simp add: getEQLevels_def)
  have len: "length levels = ?n" "length sl' = ?n"
    using demoBands_lengths[OF d] assms(2) by simp_all
  have "levels ! k = max (5 / 100) (min 1 (smooth cfg (smoothedLevels st ! k) (demoBase t k (r k)))) \<and>
        sl' ! k = smooth cfg (smoothedLevels st ! k) (demoBase t k (r k))" if "k < ?n" for k
    using demoBands_nth[OF _ d, of k] that assms(2) by simp
  then show ?thesis using g len by blast
qed

lemma getEQLevels_demo_same:
  assumes "audioMode st = Demo" "audioMode st' = Demo" "smoothedLevels st = smoothedLevels st'"
  shows "(getEQLevels cfg t r m st = None \<and> getEQLevels cfg t r m st' = None) \<or>
         (\<exists>levels st1 st1'. getEQLevels cfg t r m st = Some (levels, st1) \<and>
            getEQLevels cfg t r m st' = Some (levels, st1') \<and>
            audioMode st1 = Demo \<and> audioMode st1' = Demo \<and>
            smoothedLevels st1 = smoothedLevels st1')"
  using assms by (auto simp: getEQLevels_def split: option.splits)

lemma levelRun_demo_same:
  "audioMode st = Demo \<Longrightarrow> audioMode st' = Demo \<Longrightarrow> smoothedLevels st = smoothedLevels st' \<Longrightarrow>
   levelRun cfg st frames = levelRun cfg st' frames"
proof (induction frames arbitrary: st st')
  case Nil
  then show ?case by simp
next
  case (Cons f frames)
  obtain t r m where f: "f = (t, r, m)" by (cases f)
  from getEQLevels_demo_same[OF Cons.prems, of cfg t r m]
  show ?case
  proof
    assume "getEQLevels cfg t r m st = None \<and> getEQLevels cfg t r m st' = None"
    then show ?thesis by (simp add: f)
  next
    assume "\<exists>levels st1 st1'. getEQLevels cfg t r m st = Some (levels, st1) \<and>
            getEQLevels cfg t r m st' = Some (levels, st1') \<and>
            audioMode st1 = Demo \<and> audioMode st1' = Demo \<and>
            smoothedLevels st1 = smoothedLevels st1'"
    then obtain levels st1 st1' where g: "getEQLevels cfg t r m st = Some (levels, st1)"
      "getEQLevels cfg t r m st' = Some (levels, st1')"
      and d: "audioMode st1 = Demo" "audioMode st1' = Demo" "smoothedLevels st1 = smoothedLevels st1'"
      by blast
    show ?thesis using Cons.IH[OF d] by (simp add: f g)
  qed
qed

lemma levelRun_demo_length:
  "audioMode st = Demo \<Longrightarrow> length (smoothedLevels st) = eqBarCount cfg \<Longrightarrow>
   length (levelRun cfg st frames) = length frames"
proof (induction frames arbitrary: st)
  case Nil
  then show ?case by simp
next
  case (Cons f frames)
  obtain t r m where f: "f = (t, r, m)" by (cases f)
  from getEQLevels_demo[OF Cons.prems, of t r m]
  obtain levels sl' where g: "getEQLevels cfg t r m st = Some (levels, st\<lparr>smoothedLevels := sl'\<rparr>)"
    and l: "length sl' = eqBarCount cfg" by blast
  have "length (levelRun cfg (st\<lparr>smoothedLevels := sl'\<rparr>) frames) = length frames"
    using Cons.prems l by (intro Cons.IH) simp_all
  then show ?case by (simp add: f g)
qed

text \<open>
  Bounds of the sine from its series, and from them \<open>\<pi> \<le> 3.2\<close>.
\<close>

lemma sum_upto_7: "(\<Sum>m<7. f m) = f 0 + f 1 + f 2 + f 3 + f 4 + f 5 + f (6 :: nat)"
  for f :: "nat \<Rightarrow> real"
  by (simp add: eval_nat_numeral)

lemma sum_upto_13:
  "(\<Sum>m<13. f m) = f 0 + f 1 + f 2 + f 3 + f 4 + f 5 + f 6 + f 7 + f 8 + f 9 + f 10 + f 11 + f (12 :: nat)"
  for f :: "nat \<Rightarrow> real"
  by (simp add: eval_nat_numeral)

lemma sin_series_7:
  "\<bar>sin x - (x - x ^ 3 / 6 + x ^ 5 / 120)\<bar> \<le> \<bar>x\<bar> ^ 7 / 5040" for x :: real
proof -
  have "\<bar>sin x - (\<Sum>m<7. sin_coeff m * x ^ m)\<bar> \<le> inverse (fact 7) * \<bar>x\<bar> ^ 7"
    by (rule Maclaurin_sin_bound)
  moreover have "(\<Sum>m<7. sin_coeff m * x ^ m) = x - x ^ 3 / 6 + x ^ 5 / 120"
    by (simp add: sum_upto_7 sin_coeff_def fact_numeral)
  moreover have "inverse (fact 7) * \<bar>x\<bar> ^ 7 = \<bar>x\<bar> ^ 7 / 5040"
    by (simp add: fact_numeral)
  ultimately show ?thesis by simp
qed

lemma sin_series_13:
  "\<bar>sin x - (x - x ^ 3 / 6 + x ^ 5 / 120 - x ^ 7 / 5040 + x ^ 9 / 362880 - x ^ 11 / 39916800)\<bar>
     \<le> \<bar>x\<bar> ^ 13 / 6227020800" for x :: real
proof -
  have "\<bar>sin x - (\<Sum>m<13. sin_coeff m * x ^ m)\<bar> \<le> inverse (fact 13) * \<bar>x\<bar> ^ 13"
    by (rule Maclaurin_sin_bound)
  moreover have "(\<Sum>m<13. sin_coeff m * x ^ m) =
      x - x ^ 3 / 6 + x ^ 5 / 120 - x ^ 7 / 5040 + x ^ 9 / 362880 - x ^ 11 / 39916800"
    by (simp add: sum_upto_13 sin_coeff_def fact_numeral)
  moreover have "inverse (fact 13) * \<bar>x\<bar> ^ 13 = \<bar>x\<bar> ^ 13 / 6227020800"
    by (simp add: fact_numeral)
  ultimately show ?thesis by simp
qed

lemma sin_bounds_7:
  "x - x ^ 3 / 6 + x ^ 5 / 120 - \<bar>x\<bar> ^ 7 / 5040 \<le> sin x"
  "sin x \<le> x - x ^ 3 / 6 + x ^ 5 / 120 + \<bar>x\<bar> ^ 7 / 5040" for x :: real
  using sin_series_7[of x] by linarith+

lemma sin_bounds_13:
  "sin x \<le> x - x ^ 3 / 6 + x ^ 5 / 120 - x ^ 7 / 5040 + x ^ 9 / 362880 - x ^ 11 / 39916800
     + \<bar>x\<bar> ^ 13 / 6227020800"
  "x - x ^ 3 / 6 + x ^ 5 / 120 - x ^ 7 / 5040 + x ^ 9 / 362880 - x ^ 11 / 39916800
     - \<bar>x\<bar> ^ 13 / 6227020800 \<le> sin x" for x :: real
  using sin_series_13[of x] by linarith+

lemma sin_8_5: "999 / 1000 \<le> sin (8 / 5 :: real)"
  using sin_bounds_7(1)[of "8 / 5"] by (simp add: power_divide)

lemma sin_6_5: "\<bar>sin (6 / 5 :: real)\<bar> \<le> 934 / 1000"
  using sin_bounds_7[of "6 / 5"] by (simp add: power_divide)

lemma sin_14_5: "\<bar>sin (14 / 5 :: real)\<bar> \<le> 34 / 100"
  using sin_bounds_13[of "14 / 5"] by (simp add: power_divide)

lemma sin_16_5: "sin (16 / 5 :: real) < 0"
  using sin_bounds_13(1)[of "16 / 5"] by (simp add: power_divide)

lemma pi_le_16_5: "pi \<le> 16 / 5"
proof (rule ccontr)
  assume "\<not> pi \<le> 16 / 5"
  then have "0 < sin (16 / 5 :: real)" by (intro sin_gt_zero) simp_all
  then show False using sin_16_5 by simp
qed

lemma cos_1_5: "98 / 100 \<le> cos (1 / 5 :: real)"
proof -
  have e: "cos (2 * (1 / 10 :: real)) = 1 - 2 * sin (1 / 10) ^ 2" by (rule cos_double_sin)
  have "0 \<le> sin (1 / 10 :: real)" using pi_ge_two by (intro sin_ge_zero) simp_all
  moreover have "sin (1 / 10 :: real) \<le> 1 / 10" by (rule sin_x_le_x) simp
  ultimately have "sin (1 / 10 :: real) ^ 2 \<le> (1 / 10) ^ 2" by (intro power_mono) simp_all
  then show ?thesis using e by (simp add: power2_eq_square)
qed


lemma cos_near_multiple_of_pi:
  fixes y :: real
  shows "\<exists>k<8. cos (1 / 5) \<le> \<bar>cos (y + real k * (2 / 5))\<bar>"
proof -
  define m where "m = \<lceil>(y - 1 / 5) / pi\<rceil>"
  define d where "d = of_int m * pi - y"
  have "of_int m - 1 < (y - 1 / 5) / pi" "(y - 1 / 5) / pi \<le> of_int m"
    unfolding m_def using ceiling_correct[of "(y - 1 / 5) / pi"] by simp_all
  then have "(of_int m - 1) * pi < y - 1 / 5" "y - 1 / 5 \<le> of_int m * pi"
    by (simp_all add: pos_less_divide_eq pos_divide_le_eq)
  then have d: "- (1 / 5) \<le> d" "d < pi - 1 / 5"
    unfolding d_def by (simp_all add: algebra_simps)
  define k where "k = nat \<lfloor>(d + 1 / 5) / (2 / 5)\<rfloor>"
  define q where "q = (d + 1 / 5) / (2 / 5)"
  have q: "0 \<le> q" "q < 8" unfolding q_def using d pi_le_16_5 by simp_all
  have fl: "0 \<le> \<lfloor>q\<rfloor>" "\<lfloor>q\<rfloor> < 8" using q by linarith+
  have kq: "real k = of_int \<lfloor>q\<rfloor>" unfolding k_def q_def[symmetric] using fl by simp
  have k8: "k < 8" unfolding k_def q_def[symmetric] using fl by linarith
  have "real k \<le> q" "q < real k + 1" unfolding kq by linarith+
  then have e: "- (1 / 5) \<le> d - real k * (2 / 5)" "d - real k * (2 / 5) \<le> 1 / 5"
    unfolding q_def by (simp_all add: field_simps)
  define e where "e = d - real k * (2 / 5)"
  have ye: "y + real k * (2 / 5) = of_int m * pi - e" unfolding e_def d_def by simp
  have "cos (of_int m * pi - e) = cos (of_int m * pi) * cos e + sin (of_int m * pi) * sin e"
    by (rule cos_diff)
  also have "\<dots> = (if even m then 1 else - 1) * cos e"
    by (simp add: mult.commute[of _ pi])
  finally have "\<bar>cos (y + real k * (2 / 5))\<bar> = \<bar>cos e\<bar>" unfolding ye by simp
  also have "\<dots> = \<bar>cos \<bar>e\<bar>\<bar>" by simp
  finally have a: "\<bar>cos (y + real k * (2 / 5))\<bar> = \<bar>cos \<bar>e\<bar>\<bar>" .
  have ae: "\<bar>e\<bar> \<le> 1 / 5" using e unfolding e_def by linarith
  have "cos (1 / 5) \<le> cos \<bar>e\<bar>"
    using ae pi_ge_two by (intro cos_monotone_0_pi_le) simp_all
  then have "cos (1 / 5) \<le> \<bar>cos (y + real k * (2 / 5))\<bar>" unfolding a by linarith
  then show ?thesis using k8 by blast
qed

lemma demo_wave_pair:
  fixes t :: real
  shows "\<exists>lo hi. lo < 16 \<and> hi < 16 \<and>
           (\<forall>n n'. 0 \<le> n \<and> n < 1 \<and> 0 \<le> n' \<and> n' < 1 \<longrightarrow>
              demoBase t lo n + 2 / 100 < demoBase t hi n' \<and>
              28 / 100 \<le> demoBase t hi n' \<and> demoBase t lo n \<le> 57 / 100)"
proof -
  obtain k where k: "k < 8"
    and c: "cos (1 / 5) \<le> \<bar>cos (t / 400 + 8 / 5 + real k * (2 / 5))\<bar>"
    using cos_near_multiple_of_pi[of "t / 400 + 8 / 5"] by blast
  define a1 where "a1 = sin (t / 400 + real k * (4 / 10))"
  define b1 where "b1 = sin (t / 400 + real (k + 8) * (4 / 10))"
  define a2 where "a2 = sin (t / 250 + real k * (7 / 10))"
  define b2 where "b2 = sin (t / 250 + real (k + 8) * (7 / 10))"
  define a3 where "a3 = sin (t / 600 - real k * (3 / 10))"
  define b3 where "b3 = sin (t / 600 - real (k + 8) * (3 / 10))"
  define c1 where "c1 = cos (t / 400 + real k * (4 / 10) + 8 / 5)"
  have ec: "t / 400 + 8 / 5 + real k * (2 / 5) = t / 400 + real k * (4 / 10) + 8 / 5"
    by (simp add: field_simps)
  have c': "cos (1 / 5) \<le> \<bar>c1\<bar>" using c unfolding c1_def ec .
  have lo: "demoBase t k n = 35 / 100 + a1 * (3 / 10) + a2 * (2 / 10) + a3 * (15 / 100) + n * (15 / 100)"
    for n by (simp add: demoBase_def a1_def a2_def a3_def)
  have hi: "demoBase t (k + 8) n = 35 / 100 + b1 * (3 / 10) + b2 * (2 / 10) + b3 * (15 / 100) + n * (15 / 100)"
    for n by (simp only: demoBase_def Let_def b1_def b2_def b3_def)
  have half: "sin (x + h + h) - sin x = 2 * sin h * cos (x + h)" for x h :: real
  proof -
    have e: "(x + h + h - x) / 2 = h" "(x + h + h + x) / 2 = x + h" by (simp_all add: field_simps)
    show ?thesis by (simp only: sin_diff_sin e)
  qed
  have e1: "t / 400 + real (k + 8) * (4 / 10) = t / 400 + real k * (4 / 10) + 8 / 5 + 8 / 5"
    by (simp add: field_simps)
  have d1: "b1 - a1 = 2 * sin (8 / 5) * c1"
    unfolding a1_def b1_def c1_def e1 by (rule half)
  have e2: "t / 250 + real (k + 8) * (7 / 10) = t / 250 + real k * (7 / 10) + 14 / 5 + 14 / 5"
    by (simp add: field_simps)
  have "b2 - a2 = 2 * sin (14 / 5) * cos (t / 250 + real k * (7 / 10) + 14 / 5)"
    unfolding a2_def b2_def e2 by (rule half)
  then have "\<bar>b2 - a2\<bar> = 2 * (\<bar>sin (14 / 5)\<bar> * \<bar>cos (t / 250 + real k * (7 / 10) + 14 / 5)\<bar>)"
    by (simp add: abs_mult)
  also have "\<dots> \<le> 2 * (34 / 100 * 1)"
    by (intro mult_left_mono mult_mono sin_14_5) simp_all
  finally have d2: "\<bar>b2 - a2\<bar> \<le> 68 / 100" by simp
  have e3: "t / 600 - real k * (3 / 10) = t / 600 - real (k + 8) * (3 / 10) + 6 / 5 + 6 / 5"
    by (simp add: field_simps)
  have "a3 - b3 = 2 * sin (6 / 5) * cos (t / 600 - real (k + 8) * (3 / 10) + 6 / 5)"
    unfolding a3_def b3_def e3 by (rule half)
  then have "\<bar>a3 - b3\<bar> = 2 * (\<bar>sin (6 / 5)\<bar> * \<bar>cos (t / 600 - real (k + 8) * (3 / 10) + 6 / 5)\<bar>)"
    by (simp add: abs_mult)
  also have "\<dots> \<le> 2 * (934 / 1000 * 1)"
    by (intro mult_left_mono mult_mono sin_6_5) simp_all
  finally have d3: "\<bar>a3 - b3\<bar> \<le> 1868 / 1000" by simp
  have "999 / 1000 * (98 / 100) \<le> sin (8 / 5) * \<bar>c1\<bar>"
    using sin_8_5 cos_1_5 c' by (intro mult_mono) simp_all
  then have d1': "195804 / 100000 \<le> \<bar>b1 - a1\<bar>"
    using sin_8_5 unfolding d1 by (simp add: abs_mult)
  have r: "- 1 \<le> a1" "a1 \<le> 1" "- 1 \<le> b1" "b1 \<le> 1" "- 1 \<le> a2" "a2 \<le> 1" "- 1 \<le> b2" "b2 \<le> 1"
    "- 1 \<le> a3" "a3 \<le> 1" "- 1 \<le> b3" "b3 \<le> 1"
    unfolding a1_def b1_def a2_def b2_def a3_def b3_def by simp_all
  have k16: "k < 16" "k + 8 < 16" using k by simp_all
  show ?thesis
  proof (cases "a1 \<le> b1")
    case True
    have "demoBase t k n + 2 / 100 < demoBase t (k + 8) n' \<and>
          28 / 100 \<le> demoBase t (k + 8) n' \<and> demoBase t k n \<le> 57 / 100"
      if "0 \<le> n \<and> n < 1 \<and> 0 \<le> n' \<and> n' < 1" for n n'
      unfolding lo hi using that True d1' d2 d3 r by linarith
    then show ?thesis using k16 by blast
  next
    case False
    have "demoBase t (k + 8) n + 2 / 100 < demoBase t k n' \<and>
          28 / 100 \<le> demoBase t k n' \<and> demoBase t (k + 8) n \<le> 57 / 100"
      if "0 \<le> n \<and> n < 1 \<and> 0 \<le> n' \<and> n' < 1" for n n'
      unfolding lo hi using that False d1' d2 d3 r by linarith
    then show ?thesis using k16 by blast
  qed
qed

lemma demoBase_bounds:
  assumes "0 \<le> n" "n < 1"
  shows "- (3 / 10) \<le> demoBase t i n" "demoBase t i n \<le> 115 / 100"
proof -
  define a where "a = sin (t / 400 + real i * (4 / 10))"
  define b where "b = sin (t / 250 + real i * (7 / 10))"
  define c where "c = sin (t / 600 - real i * (3 / 10))"
  have r: "- 1 \<le> a" "a \<le> 1" "- 1 \<le> b" "b \<le> 1" "- 1 \<le> c" "c \<le> 1"
    unfolding a_def b_def c_def by simp_all
  have e: "demoBase t i n = 35 / 100 + a * (3 / 10) + b * (2 / 10) + c * (15 / 100) + n * (15 / 100)"
    by (simp add: demoBase_def a_def b_def c_def)
  show "- (3 / 10) \<le> demoBase t i n" "demoBase t i n \<le> 115 / 100"
    unfolding e using r assms by linarith+
qed

lemma initialState_demo:
  "audioMode (initialState cfg) = Demo" "smoothedLevels (initialState cfg) = replicate (eqBarCount cfg) 0"
  by (simp_all add: initialState_def buildEQBars_def)

lemma first_demo_level:
  assumes "0 \<le> r 0" "r 0 < 1"
  shows "\<exists>levels st1. getEQLevels CONFIG 50 r m (initialState CONFIG) = Some (levels, st1) \<and>
           levels ! 0 = demoBase 50 0 (r 0) * (4 / 10)"
proof -
  have n: "0 < eqBarCount CONFIG" by (simp add: CONFIG_def)
  from getEQLevels_demo[of "initialState CONFIG" CONFIG 50 r m]
  obtain levels sl' where
    g: "getEQLevels CONFIG 50 r m (initialState CONFIG) =
          Some (levels, (initialState CONFIG)\<lparr>smoothedLevels := sl'\<rparr>)"
    and l: "\<forall>k < eqBarCount CONFIG.
              levels ! k = max (5 / 100) (min 1 (smooth CONFIG (smoothedLevels (initialState CONFIG) ! k) (demoBase 50 k (r k)))) \<and>
              sl' ! k = smooth CONFIG (smoothedLevels (initialState CONFIG) ! k) (demoBase 50 k (r k))"
    by (auto simp: initialState_demo)
  have s: "0 \<le> sin (1 / 8 :: real)" "0 \<le> sin (1 / 5 :: real)" "0 \<le> sin (1 / 12 :: real)"
    using pi_ge_two by (intro sin_ge_zero; simp)+
  have "demoBase 50 0 (r 0) =
        35 / 100 + sin (1 / 8) * (3 / 10) + sin (1 / 5) * (2 / 10) + sin (1 / 12) * (15 / 100)
          + r 0 * (15 / 100)"
    by (simp add: demoBase_def)
  then have lo: "35 / 100 \<le> demoBase 50 0 (r 0)" using s assms by simp
  have hi: "demoBase 50 0 (r 0) \<le> 115 / 100" using assms by (rule demoBase_bounds)
  have "levels ! 0 = max (5 / 100) (min 1 (smooth CONFIG 0 (demoBase 50 0 (r 0))))"
    using l n by (simp add: initialState_demo)
  also have "\<dots> = demoBase 50 0 (r 0) * (4 / 10)"
    using lo hi by (simp add: smooth_def CONFIG_def max_def min_def)
  finally show ?thesis using g by blast
qed

text \<open>
  The claim C3 reads: two runs of the demo synthesis from equal smoothed state and
  with the same timestamps produce the same levels. They need not: the levels also
  depend on what \<^verbatim>\<open>Math.random()\<close> returns. From the initial state, the frame at 50 ms
  gives band 0 a level that is higher by 0.03 when the draw is 0.5 than when it is 0.
\<close>

theorem demo_levels_depend_on_draws:
  "levelRun CONFIG (initialState CONFIG) [(50, noNoise, [])] \<noteq>
   levelRun CONFIG (initialState CONFIG) [(50, halfNoise, [])]"
proof -
  obtain levels st1 where a: "getEQLevels CONFIG 50 noNoise [] (initialState CONFIG) = Some (levels, st1)"
    and a0: "levels ! 0 = demoBase 50 0 (noNoise 0) * (4 / 10)"
    using first_demo_level[of noNoise "[]"] by (auto simp: noNoise_def)
  obtain levels' st1' where b: "getEQLevels CONFIG 50 halfNoise [] (initialState CONFIG) = Some (levels', st1')"
    and b0: "levels' ! 0 = demoBase 50 0 (halfNoise 0) * (4 / 10)"
    using first_demo_level[of halfNoise "[]"] by (auto simp: halfNoise_def)
  have "levels' ! 0 = levels ! 0 + 3 / 100"
    by (simp add: a0 b0 noNoise_def halfNoise_def demoBase_def field_simps)
  then have "levels \<noteq> levels'" by auto
  then show ?thesis by (simp add: a b)
qed

lemma demo_frame_levels_differ:
  assumes demo: "audioMode st = Demo"
    and len: "length (smoothedLevels st) = eqBarCount CONFIG"
    and unit: "\<forall>i<eqBarCount CONFIG. 0 \<le> smoothedLevels st ! i \<and> smoothedLevels st ! i \<le> 1"
    and near: "\<forall>i<eqBarCount CONFIG. \<forall>j<eqBarCount CONFIG.
                 smoothedLevels st ! i \<le> smoothedLevels st ! j + 1 / 100"
    and draws: "\<forall>i<eqBarCount CONFIG. 0 \<le> r i \<and> r i < 1"
  shows "\<exists>levels st1. getEQLevels CONFIG t r m st = Some (levels, st1) \<and>
           (\<exists>i<eqBarCount CONFIG. \<exists>j<eqBarCount CONFIG. levels ! i < levels ! j)"
proof -
  have n: "eqBarCount CONFIG = 16" by (simp add: CONFIG_def)
  from getEQLevels_demo[OF demo len, of t r m]
  obtain levels sl' where
    g: "getEQLevels CONFIG t r m st = Some (levels, st\<lparr>smoothedLevels := sl'\<rparr>)"
    and l: "\<forall>k < eqBarCount CONFIG.
              levels ! k = max (5 / 100) (min 1 (smooth CONFIG (smoothedLevels st ! k) (demoBase t k (r k))))"
    by blast
  from demo_wave_pair[of t] obtain lo hi where lh: "lo < 16" "hi < 16"
    and w: "\<forall>n n'. 0 \<le> n \<and> n < 1 \<and> 0 \<le> n' \<and> n' < 1 \<longrightarrow>
              demoBase t lo n + 2 / 100 < demoBase t hi n' \<and>
              28 / 100 \<le> demoBase t hi n' \<and> demoBase t lo n \<le> 57 / 100"
    by blast
  define a where "a = smoothedLevels st ! lo"
  define b where "b = smoothedLevels st ! hi"
  define x where "x = demoBase t lo (r lo)"
  define y where "y = demoBase t hi (r hi)"
  have ab: "0 \<le> a" "a \<le> 1" "0 \<le> b" "b \<le> 1" "a \<le> b + 1 / 100"
    using unit near lh unfolding a_def b_def n by simp_all
  have "0 \<le> r lo \<and> r lo < 1 \<and> 0 \<le> r hi \<and> r hi < 1" using draws lh unfolding n by simp
  then have xy: "x + 2 / 100 < y" "28 / 100 \<le> y" "x \<le> 57 / 100"
    using w unfolding x_def y_def by blast+
  have sm: "smooth CONFIG a x = a * (6 / 10) + x * (4 / 10)"
    "smooth CONFIG b y = b * (6 / 10) + y * (4 / 10)"
    by (simp_all add: smooth_def CONFIG_def)
  have "max (5 / 100) (min 1 (smooth CONFIG a x)) < max (5 / 100) (min 1 (smooth CONFIG b y))"
    unfolding sm using ab xy by (simp add: max_def min_def)
  then have "levels ! lo < levels ! hi"
    using l lh unfolding n a_def b_def x_def y_def by simp
  then show ?thesis using g lh unfolding n by blast
qed

lemma demo_bases_differ:
  assumes "\<forall>i<eqBarCount CONFIG. 0 \<le> r i \<and> r i < 1"
  shows "\<exists>i<eqBarCount CONFIG. \<exists>j<eqBarCount CONFIG.
           demoBase t i (r i) + 2 / 100 < demoBase t j (r j)"
proof -
  have n: "eqBarCount CONFIG = 16" by (simp add: CONFIG_def)
  from demo_wave_pair[of t] obtain lo hi where lh: "lo < 16" "hi < 16"
    and w: "\<forall>n n'. 0 \<le> n \<and> n < 1 \<and> 0 \<le> n' \<and> n' < 1 \<longrightarrow>
              demoBase t lo n + 2 / 100 < demoBase t hi n' \<and>
              28 / 100 \<le> demoBase t hi n' \<and> demoBase t lo n \<le> 57 / 100"
    by blast
  have "0 \<le> r lo \<and> r lo < 1 \<and> 0 \<le> r hi \<and> r hi < 1" using assms lh unfolding n by simp
  then have "demoBase t lo (r lo) + 2 / 100 < demoBase t hi (r hi)" using w by blast
  then show ?thesis using lh unfolding n by blast
qed

text \<open>
  C3, amended. In demo mode the levels of a run of frames are a function of the
  smoothed levels at its start, the timestamps and the random draws of the frames, and
  of nothing else in the state: two runs from states with equal smoothed levels, given
  the same timestamps and the same draws, produce the same level lists; and a run over
  well-sized smoothed levels produces a level list for every frame. The sines of band
  \<open>i\<close> have the phase offsets \<open>0.4 i\<close>, \<open>0.7 i\<close> and \<open>-0.3 i\<close> (their periods are the same
  for all bands), and they keep the bands apart at every timestamp: whatever the
  timestamp and the draws in \<open>[0, 1)\<close>, the values synthesized for two of the 16 bands
  differ by more than 0.02. After the smoothing and the clamping, the levels of two
  bands differ in every frame that starts from smoothed levels in \<open>[0, 1]\<close> that are
  within 0.01 of each other, as they are in the first frame and after
  \<^verbatim>\<open>initAudioContext\<close>, where all of them are 0. (Smoothed levels that differ more
  between the bands can offset the waves: see \<open>smoothed_levels_can_cancel_the_waves\<close>
  below.)
\<close>

theorem demo_levels_function_of_draws:
  "(audioMode st = Demo \<and> audioMode st' = Demo \<and> smoothedLevels st = smoothedLevels st'
      \<longrightarrow> levelRun cfg st frames = levelRun cfg st' frames) \<and>
   (audioMode st = Demo \<and> length (smoothedLevels st) = eqBarCount cfg
      \<longrightarrow> length (levelRun cfg st frames) = length frames) \<and>
   ((\<forall>i<eqBarCount CONFIG. 0 \<le> r i \<and> r i < 1)
      \<longrightarrow> (\<exists>i<eqBarCount CONFIG. \<exists>j<eqBarCount CONFIG.
             demoBase t i (r i) + 2 / 100 < demoBase t j (r j))) \<and>
   (audioMode st = Demo \<and> length (smoothedLevels st) = eqBarCount CONFIG \<and>
    (\<forall>i<eqBarCount CONFIG. 0 \<le> smoothedLevels st ! i \<and> smoothedLevels st ! i \<le> 1) \<and>
    (\<forall>i<eqBarCount CONFIG. \<forall>j<eqBarCount CONFIG.
       smoothedLevels st ! i \<le> smoothedLevels st ! j + 1 / 100) \<and>
    (\<forall>i<eqBarCount CONFIG. 0 \<le> r i \<and> r i < 1)
      \<longrightarrow> (\<exists>levels st1. getEQLevels CONFIG t r m st = Some (levels, st1) \<and>
             (\<exists>i<eqBarCount CONFIG. \<exists>j<eqBarCount CONFIG. levels ! i < levels ! j)))"
  using levelRun_demo_same[of st st' cfg frames] levelRun_demo_length[of st cfg frames]
    demo_bases_differ[of r t] demo_frame_levels_differ[of st r t m]
  by blast

text \<open>
  The theorem at the first frame that \<^verbatim>\<open>updateEQBars\<close> computes, the one at 50 ms
  from the initial state, with every draw 0.5, and for the determinism also at the
  initial state with another output text.
\<close>

theorem demo_levels_function_of_draws_witness:
  "audioMode ((initialState CONFIG)\<lparr>lastEqUpdate := 50\<rparr>) = Demo \<and>
   audioMode (setOutput ''HELLO'' (initialState CONFIG)) = Demo \<and>
   smoothedLevels ((initialState CONFIG)\<lparr>lastEqUpdate := 50\<rparr>)
     = smoothedLevels (setOutput ''HELLO'' (initialState CONFIG)) \<and>
   levelRun CONFIG ((initialState CONFIG)\<lparr>lastEqUpdate := 50\<rparr>) [(50, halfNoise, [])] =
     levelRun CONFIG (setOutput ''HELLO'' (initialState CONFIG)) [(50, halfNoise, [])] \<and>
   length (smoothedLevels ((initialState CONFIG)\<lparr>lastEqUpdate := 50\<rparr>)) = eqBarCount CONFIG \<and>
   length (levelRun CONFIG ((initialState CONFIG)\<lparr>lastEqUpdate := 50\<rparr>) [(50, halfNoise, [])]) = 1 \<and>
   smoothedLevels ((initialState CONFIG)\<lparr>lastEqUpdate := 50\<rparr>) = replicate (eqBarCount CONFIG) 0 \<and>
   (\<forall>i. 0 \<le> halfNoise i \<and> halfNoise i < 1) \<and>
   (\<exists>i<eqBarCount CONFIG. \<exists>j<eqBarCount CONFIG.
      demoBase 50 i (halfNoise i) + 2 / 100 < demoBase 50 j (halfNoise j)) \<and>
   (\<exists>levels st1. getEQLevels CONFIG 50 halfNoise [] ((initialState CONFIG)\<lparr>lastEqUpdate := 50\<rparr>)
        = Some (levels, st1) \<and>
      (\<exists>i<eqBarCount CONFIG. \<exists>j<eqBarCount CONFIG. levels ! i < levels ! j))"
proof -
  let ?st = "(initialState CONFIG)\<lparr>lastEqUpdate := 50\<rparr>"
  have h: "audioMode ?st = Demo"
    "audioMode (setOutput ''HELLO'' (initialState CONFIG)) = Demo"
    "smoothedLevels ?st = smoothedLevels (setOutput ''HELLO'' (initialState CONFIG))"
    "length (smoothedLevels ?st) = eqBarCount CONFIG"
    "smoothedLevels ?st = replicate (eqBarCount CONFIG) 0"
    by (simp_all add: initialState_demo setOutput_def)
  have n: "\<forall>i. 0 \<le> halfNoise i \<and> halfNoise i < 1" by (simp add: halfNoise_def)
  then have n': "\<forall>i<eqBarCount CONFIG. 0 \<le> halfNoise i \<and> halfNoise i < 1" by simp
  have u: "\<forall>i<eqBarCount CONFIG. 0 \<le> smoothedLevels ?st ! i \<and> smoothedLevels ?st ! i \<le> 1"
    "\<forall>i<eqBarCount CONFIG. \<forall>j<eqBarCount CONFIG.
       smoothedLevels ?st ! i \<le> smoothedLevels ?st ! j + 1 / 100"
    by (simp_all add: h(5))
  have l: "length [(50 :: real, halfNoise, [] :: 8 word list)] = 1" by simp
  show ?thesis
    using h n n' u l demo_levels_function_of_draws [of ?st
        "setOutput ''HELLO'' (initialState CONFIG)" CONFIG "[(50, halfNoise, [])]" halfNoise 50 "[]"]
    by metis
qed

text \<open>
  The smoothed levels are part of what a level is computed from, and they can offset
  the waves: for every timestamp and all draws there are smoothed levels in \<open>[0, 1]\<close>
  from which the frame gives every band the level 0.46. Whether a run of the page
  reaches such smoothed levels is not decided here.
\<close>

lemma smoothed_levels_can_cancel_the_waves:
  assumes "\<forall>i<eqBarCount CONFIG. 0 \<le> r i \<and> r i < 1"
  shows "audioMode (cancellingState t r) = Demo \<and> wellFormed CONFIG (cancellingState t r) \<and>
         (\<forall>i<eqBarCount CONFIG. 0 \<le> smoothedLevels (cancellingState t r) ! i \<and>
                                  smoothedLevels (cancellingState t r) ! i \<le> 1) \<and>
         (\<exists>levels st1. getEQLevels CONFIG t r m (cancellingState t r) = Some (levels, st1) \<and>
            (\<forall>i<eqBarCount CONFIG. levels ! i = 46 / 100))"
proof -
  let ?st = "cancellingState t r"
  have d: "audioMode ?st = Demo" by (simp add: cancellingState_def initialState_demo)
  have len: "length (smoothedLevels ?st) = eqBarCount CONFIG" by (simp add: cancellingState_def)
  have wf: "wellFormed CONFIG ?st"
    by (simp add: wellFormed_def cancellingState_def initialState_def buildEQBars_def list_all_iff)
  have s: "smoothedLevels ?st ! i = (46 / 100 - demoBase t i (r i) * (4 / 10)) / (6 / 10)"
    if "i < eqBarCount CONFIG" for i
    using that by (simp add: cancellingState_def)
  have u: "0 \<le> smoothedLevels ?st ! i \<and> smoothedLevels ?st ! i \<le> 1" if i: "i < eqBarCount CONFIG" for i
  proof -
    have "0 \<le> r i" "r i < 1" using assms i by simp_all
    from demoBase_bounds[OF this, of t i] show ?thesis unfolding s[OF i] by simp
  qed
  from getEQLevels_demo[OF d len, of t r m]
  obtain levels sl' where
    g: "getEQLevels CONFIG t r m ?st = Some (levels, ?st\<lparr>smoothedLevels := sl'\<rparr>)"
    and l: "\<forall>k < eqBarCount CONFIG.
              levels ! k = max (5 / 100) (min 1 (smooth CONFIG (smoothedLevels ?st ! k) (demoBase t k (r k))))"
    by blast
  have "levels ! i = 46 / 100" if i: "i < eqBarCount CONFIG" for i
  proof -
    have "smooth CONFIG (smoothedLevels ?st ! i) (demoBase t i (r i)) = 46 / 100"
      unfolding s[OF i] by (simp add: smooth_def CONFIG_def field_simps)
    then show ?thesis using l i by simp
  qed
  then show ?thesis using d wf u g by blast
qed

subsection \<open>Switching sources\<close>

lemma stopAudioSource_keeps:
  "smoothedLevels (stopAudioSource st) = smoothedLevels st"
  "peakLevels (stopAudioSource st) = peakLevels st"
  "peakHoldTimes (stopAudioSource st) = peakHoldTimes st"
  "segments (stopAudioSource st) = segments st"
  "audioContext (stopAudioSource st) = audioContext st"
  "eqAnimationId (stopAudioSource st) = eqAnimationId st"
  "logs (stopAudioSource st) = logs st"
  by (simp_all add: stopAudioSource_def Let_def split: option.splits)




lemma stopMicrophone_keeps:
  "smoothedLevels (stopMicrophone st) = smoothedLevels st"
  by (simp add: stopMicrophone_def Let_def addLog_def setOutput_def split: option.splits)



lemma andThen_keeps: "(\<And>s. g (fst (f s)) = g s) \<Longrightarrow> g (fst (andThen r f)) = g (fst r)"
  by (cases r) (auto simp: andThen_def split: option.splits)





lemma initAudioContext_frame:
  "audioMode (fst (initAudioContext cfg h st)) = audioMode st"
  "micStream (fst (initAudioContext cfg h st)) = micStream st"
  "audioElement (fst (initAudioContext cfg h st)) = audioElement st"
  "audioSource (fst (initAudioContext cfg h st)) = audioSource st"
  "liveStreams (fst (initAudioContext cfg h st)) = liveStreams st"
  "loadedElements (fst (initAudioContext cfg h st)) = loadedElements st"
  "connectedSources (fst (initAudioContext cfg h st)) = connectedSources st"
  "eqAnimationId (fst (initAudioContext cfg h st)) = eqAnimationId st"
  "segments (fst (initAudioContext cfg h st)) = segments st"
  by (simp_all add: initAudioContext_def addLog_def split: sum.splits)

lemma initAudioContext_smoothed:
  "smoothedLevels (fst (initAudioContext cfg h st)) =
     (case (audioContext st, newAudioContext h) of
        (None, Inr ctx) \<Rightarrow> replicate (eqBarCount cfg) 0
      | _ \<Rightarrow> smoothedLevels st)"
  by (simp add: initAudioContext_def addLog_def split: sum.splits option.splits)


lemma resumeIfSuspended_frame:
  "audioMode (fst (resumeIfSuspended h st)) = audioMode st"
  "micStream (fst (resumeIfSuspended h st)) = micStream st"
  "audioElement (fst (resumeIfSuspended h st)) = audioElement st"
  "audioSource (fst (resumeIfSuspended h st)) = audioSource st"
  "liveStreams (fst (resumeIfSuspended h st)) = liveStreams st"
  "loadedElements (fst (resumeIfSuspended h st)) = loadedElements st"
  "connectedSources (fst (resumeIfSuspended h st)) = connectedSources st"
  "eqAnimationId (fst (resumeIfSuspended h st)) = eqAnimationId st"
  "smoothedLevels (fst (resumeIfSuspended h st)) = smoothedLevels st"
  "wellFormed cfg (fst (resumeIfSuspended h st)) = wellFormed cfg st"
  by (simp_all add: resumeIfSuspended_def wellFormed_def split: option.splits)

lemma openMicrophone_frame:
  "audioMode (fst (openMicrophone h st)) = audioMode st"
  "audioElement (fst (openMicrophone h st)) = audioElement st"
  "audioSource (fst (openMicrophone h st)) = audioSource st"
  "loadedElements (fst (openMicrophone h st)) = loadedElements st"
  "connectedSources (fst (openMicrophone h st)) = connectedSources st"
  "eqAnimationId (fst (openMicrophone h st)) = eqAnimationId st"
  "smoothedLevels (fst (openMicrophone h st)) = smoothedLevels st"
  "wellFormed cfg (fst (openMicrophone h st)) = wellFormed cfg st"
  by (simp_all add: openMicrophone_def wellFormed_def split: sum.splits)

lemma connectMicrophone_frame:
  "audioMode (fst (connectMicrophone h st)) = audioMode st"
  "micStream (fst (connectMicrophone h st)) = micStream st"
  "audioElement (fst (connectMicrophone h st)) = audioElement st"
  "liveStreams (fst (connectMicrophone h st)) = liveStreams st"
  "loadedElements (fst (connectMicrophone h st)) = loadedElements st"
  "eqAnimationId (fst (connectMicrophone h st)) = eqAnimationId st"
  "smoothedLevels (fst (connectMicrophone h st)) = smoothedLevels st"
  "wellFormed cfg (fst (connectMicrophone h st)) = wellFormed cfg st"
  by (simp_all add: connectMicrophone_def wellFormed_def split: sum.splits)


lemma microphoneActive_frame:
  "snd (microphoneActive st) = None"
  "micStream (fst (microphoneActive st)) = micStream st"
  "audioElement (fst (microphoneActive st)) = audioElement st"
  "audioSource (fst (microphoneActive st)) = audioSource st"
  "liveStreams (fst (microphoneActive st)) = liveStreams st"
  "loadedElements (fst (microphoneActive st)) = loadedElements st"
  "connectedSources (fst (microphoneActive st)) = connectedSources st"
  "eqAnimationId (fst (microphoneActive st)) = eqAnimationId st"
  "smoothedLevels (fst (microphoneActive st)) = smoothedLevels st"
  "wellFormed cfg (fst (microphoneActive st)) = wellFormed cfg st"
  by (simp_all add: microphoneActive_def addLog_def setOutput_def wellFormed_def)



lemma micActivation_smoothed:
  "smoothedLevels (fst (micActivation cfg h st)) = smoothedLevels (fst (initAudioContext cfg h st))"
  unfolding micActivation_def
  by (simp add: andThen_keeps[where g = smoothedLevels] microphoneActive_frame
      connectMicrophone_frame openMicrophone_frame resumeIfSuspended_frame)






lemma createAudioElement_frame:
  "snd (createAudioElement h st) = None"
  "audioMode (fst (createAudioElement h st)) = audioMode st"
  "micStream (fst (createAudioElement h st)) = micStream st"
  "audioSource (fst (createAudioElement h st)) = audioSource st"
  "liveStreams (fst (createAudioElement h st)) = liveStreams st"
  "connectedSources (fst (createAudioElement h st)) = connectedSources st"
  "eqAnimationId (fst (createAudioElement h st)) = eqAnimationId st"
  "smoothedLevels (fst (createAudioElement h st)) = smoothedLevels st"
  "wellFormed cfg (fst (createAudioElement h st)) = wellFormed cfg st"
  by (simp_all add: createAudioElement_def Let_def wellFormed_def split: option.splits)

lemma connectElement_frame:
  "audioMode (fst (connectElement h st)) = audioMode st"
  "micStream (fst (connectElement h st)) = micStream st"
  "audioElement (fst (connectElement h st)) = audioElement st"
  "liveStreams (fst (connectElement h st)) = liveStreams st"
  "loadedElements (fst (connectElement h st)) = loadedElements st"
  "eqAnimationId (fst (connectElement h st)) = eqAnimationId st"
  "smoothedLevels (fst (connectElement h st)) = smoothedLevels st"
  "wellFormed cfg (fst (connectElement h st)) = wellFormed cfg st"
  by (simp_all add: connectElement_def wellFormed_def split: sum.splits)


lemma fileActive_frame:
  "snd (fileActive name st) = None"
  "micStream (fst (fileActive name st)) = micStream st"
  "audioElement (fst (fileActive name st)) = audioElement st"
  "audioSource (fst (fileActive name st)) = audioSource st"
  "liveStreams (fst (fileActive name st)) = liveStreams st"
  "loadedElements (fst (fileActive name st)) = loadedElements st"
  "connectedSources (fst (fileActive name st)) = connectedSources st"
  "eqAnimationId (fst (fileActive name st)) = eqAnimationId st"
  "smoothedLevels (fst (fileActive name st)) = smoothedLevels st"
  "wellFormed cfg (fst (fileActive name st)) = wellFormed cfg st"
  by (simp_all add: fileActive_def Let_def addLog_def setOutput_def wellFormed_def)

lemma handleFileSelect_keeps:
  "eqAnimationId (fst (handleFileSelect cfg h selected st)) = eqAnimationId st"
  "smoothedLevels (fst (handleFileSelect cfg h (Some name) st)) =
     smoothedLevels (fst (initAudioContext cfg h (stopAudioSource st)))"
  unfolding handleFileSelect_def
  by (simp_all add: andThen_keeps[where g = eqAnimationId] andThen_keeps[where g = smoothedLevels]
      fileActive_frame connectElement_frame createAudioElement_frame initAudioContext_frame
      stopAudioSource_keeps split: option.splits)









subsection \<open>A failed activation\<close>




lemma micOn_state:
  "audioMode micOn = Mic" "micStream micOn = Some 1" "audioSource micOn = Some 2"
  "liveStreams micOn = {1}" "connectedSources micOn = {2}"
  "audioContext micOn = Some \<lparr> sampleRate = 44100, suspended = False \<rparr>"
  by (simp_all add: micOn_def toggleMicrophone_def micActivation_def andThen_def
      initAudioContext_def resumeIfSuspended_def openMicrophone_def connectMicrophone_def
      microphoneActive_def grantingHost_def stopAudioSource_def addLog_def setOutput_def
      initialState_def buildEQBars_def Let_def)

lemma initAudioContext_existing:
  "audioContext st \<noteq> None \<Longrightarrow> initAudioContext cfg h st = (st, None)"
  by (simp add: initAudioContext_def)
















lemma andThen_simps:
  "andThen (s, None) f = f s"
  "andThen (s, Some e) f = (s, Some e)"
  by (simp_all add: andThen_def)







lemma awaiting_microphone:
  assumes "newAudioContext h = Inr \<lparr> sampleRate = 44100, suspended = False \<rparr>"
  shows "snd (toggleMicrophoneCall CONFIG h (initialState CONFIG)) = AwaitingUserMedia"
    "audioContext (fst (toggleMicrophoneCall CONFIG h (initialState CONFIG))) =
       Some \<lparr> sampleRate = 44100, suspended = False \<rparr>"
    "liveStreams (fst (toggleMicrophoneCall CONFIG h (initialState CONFIG))) = {}"
    "loadedElements (fst (toggleMicrophoneCall CONFIG h (initialState CONFIG))) = {}"
    "connectedSources (fst (toggleMicrophoneCall CONFIG h (initialState CONFIG))) = {}"
    "micStream (fst (toggleMicrophoneCall CONFIG h (initialState CONFIG))) = None"
    "audioElement (fst (toggleMicrophoneCall CONFIG h (initialState CONFIG))) = None"
    "audioSource (fst (toggleMicrophoneCall CONFIG h (initialState CONFIG))) = None"
  using assms
  by (simp_all add: toggleMicrophoneCall_def initAudioContext_def stopAudioSource_def
      initialState_def buildEQBars_def addLog_def Let_def)

lemma file_selected_meanwhile:
  assumes "audioContext st \<noteq> None" "createMediaElementSource h = Inr node"
    "micStream st = None" "audioElement st = None" "audioSource st = None"
  shows "audioMode (fst (handleFileSelect cfg h (Some name) st)) = File"
    "liveStreams (fst (handleFileSelect cfg h (Some name) st)) = liveStreams st"
    "loadedElements (fst (handleFileSelect cfg h (Some name) st)) = insert (newAudio h) (loadedElements st)"
    "connectedSources (fst (handleFileSelect cfg h (Some name) st)) = insert node (connectedSources st)"
    "audioSource (fst (handleFileSelect cfg h (Some name) st)) = Some node"
    "micStream (fst (handleFileSelect cfg h (Some name) st)) = None"
    "destinationConnected (fst (handleFileSelect cfg h (Some name) st))"
proof -
  have s: "stopAudioSource st = st\<lparr>micBtnActive := False, micBtnText := ''MIC'',
              playPauseBtnDisabled := True, playPauseBtnText := ''PLAY'',
              audioMode := Demo, isPlaying := False\<rparr>"
    using assms(3-5) by (simp add: stopAudioSource_def)
  have i: "initAudioContext cfg h (stopAudioSource st) = (stopAudioSource st, None)"
    using assms(1) by (simp add: initAudioContext_existing stopAudioSource_keeps)
  have e: "handleFileSelect cfg h (Some name) st =
           fileActive name (fst (connectElement h (fst (createAudioElement h (stopAudioSource st)))))"
    using assms(2)
    by (simp add: handleFileSelect_def i andThen_simps createAudioElement_def connectElement_def
        Let_def split: option.splits)
  show "audioMode (fst (handleFileSelect cfg h (Some name) st)) = File"
    "liveStreams (fst (handleFileSelect cfg h (Some name) st)) = liveStreams st"
    "loadedElements (fst (handleFileSelect cfg h (Some name) st)) = insert (newAudio h) (loadedElements st)"
    "connectedSources (fst (handleFileSelect cfg h (Some name) st)) = insert node (connectedSources st)"
    "audioSource (fst (handleFileSelect cfg h (Some name) st)) = Some node"
    "micStream (fst (handleFileSelect cfg h (Some name) st)) = None"
    "destinationConnected (fst (handleFileSelect cfg h (Some name) st))"
    using assms(2-5) unfolding e s
    by (simp_all add: fileActive_def Let_def addLog_def setOutput_def connectElement_def
        createAudioElement_def)
qed

lemma fileDuringAwait_state:
  assumes "newAudioContext h = Inr \<lparr> sampleRate = 44100, suspended = False \<rparr>"
    "createMediaElementSource h = Inr 4" "newAudio h = 3"
  shows "audioMode (fileDuringAwait h) = File" "liveStreams (fileDuringAwait h) = {}"
    "loadedElements (fileDuringAwait h) = {3}" "connectedSources (fileDuringAwait h) = {4}"
    "audioSource (fileDuringAwait h) = Some 4" "micStream (fileDuringAwait h) = None"
  unfolding fileDuringAwait_def
  using file_selected_meanwhile[of "fst (toggleMicrophoneCall CONFIG h (initialState CONFIG))" h 4
      CONFIG "''song.mp3''"] awaiting_microphone[OF assms(1)] assms(2,3)
  by simp_all





text \<open>
  Outside the failures: when a file is selected while \<^verbatim>\<open>toggleMicrophone\<close> waits for
  \<^verbatim>\<open>getUserMedia\<close> and the microphone is then granted, the source node of the file
  stays connected next to that of the microphone, and the state no longer refers to
  it.
\<close>

lemma file_selected_during_await_leaves_two_sources:
  "snd (toggleMicrophoneCall CONFIG grantingHost (initialState CONFIG)) = AwaitingUserMedia \<and>
   audioMode (userMediaSettled grantingHost (fileDuringAwait grantingHost)) = Mic \<and>
   connectedSources (userMediaSettled grantingHost (fileDuringAwait grantingHost)) = {2, 4} \<and>
   audioSource (userMediaSettled grantingHost (fileDuringAwait grantingHost)) = Some 2 \<and>
   \<not> ownsResources (userMediaSettled grantingHost (fileDuringAwait grantingHost))"
proof -
  have hg: "newAudioContext grantingHost = Inr \<lparr> sampleRate = 44100, suspended = False \<rparr>"
    "createMediaElementSource grantingHost = Inr 4" "newAudio grantingHost = 3"
    by (simp_all add: grantingHost_def)
  have u: "userMediaSettled grantingHost s =
      addLog ''MICROPHONE CONNECTED'' (setOutput ''MICROPHONE ACTIVE''
        (s\<lparr>micStream := Some 1, liveStreams := insert 1 (liveStreams s),
            audioSource := Some 2, connectedSources := insert 2 (connectedSources s),
            audioMode := Mic, micBtnActive := True, micBtnText := ''MIC ON''\<rparr>))" for s
    by (simp add: userMediaSettled_def openMicrophone_def connectMicrophone_def
        microphoneActive_def andThen_def grantingHost_def)
  show ?thesis
    using awaiting_microphone(1)[OF hg(1)] fileDuringAwait_state[OF hg]
    by (simp add: u addLog_def setOutput_def ownsResources_def)
qed

subsection \<open>The smoothed levels when the source changes\<close>

lemma toggleMicrophone_smoothed:
  "smoothedLevels (fst (toggleMicrophone cfg h st)) =
     (if audioMode st = Mic then smoothedLevels st
      else smoothedLevels (fst (initAudioContext cfg h (stopAudioSource st))))"
proof (cases "audioMode st = Mic")
  case True
  then show ?thesis by (simp add: toggleMicrophone_def stopMicrophone_keeps)
next
  case False
  obtain st1 e where r: "micActivation cfg h (stopAudioSource st) = (st1, e)"
    by (cases "micActivation cfg h (stopAudioSource st)")
  have "smoothedLevels st1 = smoothedLevels (fst (initAudioContext cfg h (stopAudioSource st)))"
    using micActivation_smoothed[of cfg h "stopAudioSource st"] by (simp add: r)
  then show ?thesis using False
    by (cases e) (simp_all add: toggleMicrophone_def r addLog_def setOutput_def)
qed

text \<open>
  C4, amended. \<^verbatim>\<open>stopAudioSource\<close> and \<^verbatim>\<open>stopMicrophone\<close> leave the smoothed levels as
  they are, and so do \<^verbatim>\<open>toggleMicrophone\<close> and \<^verbatim>\<open>handleFileSelect\<close> when the audio
  context exists already or cannot be created. The first activation of a microphone
  or of a file, the one that creates the audio context, sets the smoothed level of
  every band to 0.
\<close>

theorem smoothed_levels_across_source_switch:
  "smoothedLevels (stopAudioSource st) = smoothedLevels st \<and>
   smoothedLevels (stopMicrophone st) = smoothedLevels st \<and>
   (audioContext st \<noteq> None \<longrightarrow>
      smoothedLevels (fst (toggleMicrophone cfg h st)) = smoothedLevels st \<and>
      smoothedLevels (fst (handleFileSelect cfg h selected st)) = smoothedLevels st) \<and>
   (audioContext st = None \<and> newAudioContext h = Inl err \<longrightarrow>
      smoothedLevels (fst (toggleMicrophone cfg h st)) = smoothedLevels st \<and>
      smoothedLevels (fst (handleFileSelect cfg h selected st)) = smoothedLevels st) \<and>
   (audioContext st = None \<and> newAudioContext h = Inr ctx \<longrightarrow>
      (audioMode st \<noteq> Mic \<longrightarrow>
         smoothedLevels (fst (toggleMicrophone cfg h st)) = replicate (eqBarCount cfg) 0) \<and>
      smoothedLevels (fst (handleFileSelect cfg h (Some name) st)) = replicate (eqBarCount cfg) 0)"
proof -
  have f: "smoothedLevels (fst (handleFileSelect cfg h selected st)) =
           (case selected of None \<Rightarrow> smoothedLevels st
            | Some n \<Rightarrow> smoothedLevels (fst (initAudioContext cfg h (stopAudioSource st))))"
    by (cases selected) (simp_all add: handleFileSelect_keeps, simp add: handleFileSelect_def)
  show ?thesis
    by (simp add: stopAudioSource_keeps stopMicrophone_keeps toggleMicrophone_smoothed f
        handleFileSelect_keeps initAudioContext_smoothed split: option.splits)
qed

lemma afterDemoFrame_state:
  "audioContext afterDemoFrame = None" "audioMode afterDemoFrame = Demo"
  "smoothedLevels afterDemoFrame ! 0 = 17 / 100"
proof -
  from getEQLevels_demo[of "initialState CONFIG" CONFIG 0 halfNoise "[]"]
  obtain levels sl' where
    g: "getEQLevels CONFIG 0 halfNoise [] (initialState CONFIG) =
          Some (levels, (initialState CONFIG)\<lparr>smoothedLevels := sl'\<rparr>)"
    and l: "\<forall>k < eqBarCount CONFIG.
              levels ! k = max (5 / 100) (min 1 (smooth CONFIG (smoothedLevels (initialState CONFIG) ! k) (demoBase 0 k (halfNoise k)))) \<and>
              sl' ! k = smooth CONFIG (smoothedLevels (initialState CONFIG) ! k) (demoBase 0 k (halfNoise k))"
    by (auto simp: initialState_demo)
  have e: "afterDemoFrame = (initialState CONFIG)\<lparr>smoothedLevels := sl'\<rparr>"
    by (simp add: afterDemoFrame_def g)
  have n: "0 < eqBarCount CONFIG" by (simp add: CONFIG_def)
  have "sl' ! 0 = smooth CONFIG 0 (demoBase 0 0 (halfNoise 0))"
    using l n by (simp add: initialState_demo)
  also have "\<dots> = 17 / 100" by (simp add: smooth_def demoBase_def CONFIG_def halfNoise_def)
  finally show "smoothedLevels afterDemoFrame ! 0 = 17 / 100" by (simp add: e)
  show "audioContext afterDemoFrame = None" "audioMode afterDemoFrame = Demo"
    by (simp_all add: e initialState_def buildEQBars_def)
qed

text \<open>
  The claim C4 reads: switching the source never changes the smoothed levels. The
  first switch does: after a demo frame has moved band 0 to 0.17, switching the
  microphone on creates the audio context, and \<^verbatim>\<open>initAudioContext\<close> fills the smoothed
  levels with zero.
\<close>

theorem first_activation_resets_smoothed_levels:
  "smoothedLevels (fst (toggleMicrophone CONFIG grantingHost afterDemoFrame)) \<noteq>
   smoothedLevels afterDemoFrame"
proof -
  have "smoothedLevels (fst (toggleMicrophone CONFIG grantingHost afterDemoFrame)) =
        replicate (eqBarCount CONFIG) 0"
    by (simp add: toggleMicrophone_smoothed afterDemoFrame_state initAudioContext_smoothed
        stopAudioSource_keeps grantingHost_def)
  then have "smoothedLevels (fst (toggleMicrophone CONFIG grantingHost afterDemoFrame)) ! 0 = 0"
    by (simp add: CONFIG_def)
  then show ?thesis using afterDemoFrame_state(3) by auto
qed

text \<open>
  The theorem with the microphone on, where the context exists, and after the demo
  frame, where it does not, with a browser that creates it and with one that cannot.
\<close>

theorem smoothed_levels_across_source_switch_witness:
  "audioContext micOn \<noteq> None \<and>
   smoothedLevels (fst (toggleMicrophone CONFIG grantingHost micOn)) = smoothedLevels micOn \<and>
   smoothedLevels (fst (handleFileSelect CONFIG grantingHost (Some ''song.mp3'') micOn))
     = smoothedLevels micOn \<and>
   audioContext afterDemoFrame = None \<and>
   newAudioContext grantingHost = Inr \<lparr> sampleRate = 44100, suspended = False \<rparr> \<and>
   audioMode afterDemoFrame \<noteq> Mic \<and>
   smoothedLevels (fst (toggleMicrophone CONFIG grantingHost afterDemoFrame))
     = replicate (eqBarCount CONFIG) 0 \<and>
   newAudioContext (grantingHost\<lparr>newAudioContext := Inl ''NotSupportedError''\<rparr>)
     = Inl ''NotSupportedError'' \<and>
   smoothedLevels (fst (toggleMicrophone CONFIG
      (grantingHost\<lparr>newAudioContext := Inl ''NotSupportedError''\<rparr>) afterDemoFrame))
     = smoothedLevels afterDemoFrame"
proof -
  have h: "audioContext micOn \<noteq> None" "audioContext afterDemoFrame = None"
    "newAudioContext grantingHost = Inr \<lparr> sampleRate = 44100, suspended = False \<rparr>"
    "audioMode afterDemoFrame \<noteq> Mic"
    "newAudioContext (grantingHost\<lparr>newAudioContext := Inl ''NotSupportedError''\<rparr>)
       = Inl ''NotSupportedError''"
    by (simp_all add: micOn_state afterDemoFrame_state grantingHost_def)
  show ?thesis
    using h
      smoothed_levels_across_source_switch [where st = micOn and cfg = CONFIG
        and h = grantingHost and selected = "Some ''song.mp3''"]
      smoothed_levels_across_source_switch [where st = afterDemoFrame and cfg = CONFIG
        and h = grantingHost and ctx = "\<lparr> sampleRate = 44100, suspended = False \<rparr>"]
      smoothed_levels_across_source_switch [where st = afterDemoFrame and cfg = CONFIG
        and h = "grantingHost\<lparr>newAudioContext := Inl ''NotSupportedError''\<rparr>"
        and err = "''NotSupportedError''"]
    by blast
qed

end
